theory Spec2Isabelle
  imports Complex_Main "HOL-Library.Log_Nat"
begin

section \<open>Data model\<close>

text \<open>
  The timer-tracking core of the task tracker: the Mongoose models Timer, Task, User and
  Group, the timer service (startTimer, completeTimer, getActiveTimer, listTaskTimers),
  the socket handlers \<open>timer:start\<close>, \<open>timer:complete\<close> and \<open>timer:get:active\<close>, and
  the leaderboard service (generateGroupLeaderboard, generateGlobalLeaderboard).

  Modelling decisions:
  \<^item> an ObjectId is a natural number; a Date is an integer number of milliseconds since
    the epoch; a collection is the list of its documents in natural (insertion) order;
  \<^item> a JavaScript Number holding a count that is only ever incremented from its default 0
    (\<open>tasksCompleted\<close>) is a \<open>nat\<close>; the other integer-valued Numbers are \<open>int\<close> (integer
    arithmetic on doubles is exact below \<open>2^53\<close>); a Number that holds a fraction is the
    rational value of an IEEE-754 double, every operation on it is rounded by \<open>double\<close>,
    and \<open>Math.round\<close> is \<open>\<lfloor>x + 1/2\<rfloor>\<close> (round half up);
  \<^item> a string is the list of its UTF-16 code units, so \<open>length\<close> is the JavaScript
    \<open>length\<close>;
  \<^item> every \<open>new Date()\<close> / \<open>Date.now()\<close> read is an explicit argument;
  \<^item> a thrown \<open>Error\<close> (for a socket handler: the failure passed to the acknowledgement
    callback) is a value of the datatype \<open>error\<close>, named after its message; an operation
    returns its result together with the state it leaves behind, also when it throws
    after a document has been saved;
  \<^item> one call of an operation is one uninterrupted run of its body; what two overlapping
    requests can do is written out where it is needed, by running the part of a body
    that follows a query on the document that query returned earlier;
  \<^item> only the document fields the timer core reads or writes are kept; logging is not
    modelled.
\<close>

type_synonym oid = nat
type_synonym time = int

datatype status = Pending | InProgress | Completed | Cancelled

record Timer =
  timer_id :: oid
  task :: oid
  user :: oid
  timer_group :: "oid option"
  startTime :: time
  endTime :: "time option"
  duration :: int
  isActive :: bool
  isCompleted :: bool
  completedOnTime :: bool
  timer_notes :: "string option"

record completion =
  c_user :: oid
  c_completedAt :: time
  c_timeSpent :: int
  c_completedOnTime :: bool

record Task =
  task_id :: oid
  creator :: oid
  task_group :: "oid option"
  assignees :: "oid list"
  status :: status
  dueDate :: time
  completedAt :: "time option"
  completedBy :: "completion list"
  activeTimers :: int
  totalTimers :: int

record User =
  user_id :: oid
  firstName :: string
  lastName :: string
  tasksCompleted :: nat
  taskCompletionRate :: rat
  totalTimeSpent :: int
  lastActive :: time

record Group =
  group_id :: oid
  isPublic :: bool
  leaders :: "oid list"
  members :: "oid list"
  completedTasks :: int
  group_totalTimeSpent :: int
  group_lastActive :: time

record lb_entry =
  lb_user :: oid
  lb_name :: string
  lb_tasksCompleted :: nat
  lb_totalTime :: int
  lb_completionRate :: int
  lb_isLeader :: "bool option"

text \<open>
  Redis. Keys are the two families the core uses: \<open>timer:<userId>:<taskId>\<close> and
  \<open>leaderboard:global:<timeFrame>\<close>. A value is stored with an optional expiry instant.
  \<open>initialised\<close> is whether \<open>connectToRedis\<close> has set the module-level client
  (\<open>getRedisClient\<close> throws otherwise); \<open>getOk\<close>, \<open>setOk\<close> and \<open>delOk\<close>
  say whether the next command of that kind resolves or rejects.
\<close>

datatype cache_key = TimerKey oid oid | GlobalLeaderboardKey string

datatype cache_val = TimerIdVal oid | LeaderboardVal "lb_entry list"

record Redis =
  initialised :: bool
  getOk :: bool
  setOk :: bool
  delOk :: bool
  entries :: "cache_key \<rightharpoonup> (cache_val \<times> time option)"

record system =
  timers :: "Timer list"
  tasks :: "Task list"
  users :: "User list"
  groups :: "Group list"
  redis :: Redis

datatype error =
    ActiveTimerExists      \<comment> \<open>'You already have an active timer. Complete it before starting a new one.'\<close>
  | TaskNotFound           \<comment> \<open>'Task not found'\<close>
  | CannotStartTimer status \<comment> \<open>'Cannot start timer for a <status> task'\<close>
  | NoPermissionToWork     \<comment> \<open>'You do not have permission to work on this task'\<close>
  | NoPermissionToView     \<comment> \<open>'You do not have permission to view this task'\<close>
  | NoActiveTimer          \<comment> \<open>'No active timer found'\<close>
  | GroupNotFound          \<comment> \<open>'Group not found'\<close>
  | RedisNotInitialized    \<comment> \<open>'Redis client not initialized'\<close>
  | RedisCommandFailed     \<comment> \<open>a rejected Redis command\<close>
  | NullDereference        \<comment> \<open>TypeError: a method called on null\<close>
  | StoreError             \<comment> \<open>a query the database rejects\<close>
  | ValidationError        \<comment> \<open>'Notes cannot exceed 500 characters', raised by save\<close>
  | FailedToStartTimer     \<comment> \<open>'Failed to start timer': an exception caught by the socket handler\<close>
  | FailedToCompleteTimer  \<comment> \<open>'Failed to complete timer': an exception caught by the socket handler\<close>
  | NoActiveTimerForTask   \<comment> \<open>'No active timer found for this task'\<close>
  | TimerNotFoundOrCompleted \<comment> \<open>'Timer not found or already completed'\<close>

section \<open>Store and cache primitives\<close>

definition js_round :: "rat \<Rightarrow> int" where
  \<comment> \<open>Math.round: nearest integer, a tie goes up\<close>
  "js_round x = \<lfloor>x + 1 / 2\<rfloor>"

text \<open>
  IEEE-754 binary64. \<open>double x\<close> is the double nearest to the rational \<open>x\<close>, a tie going
  to the even significand (53 significant bits; below \<open>2^-1022\<close> the spacing stays
  \<open>2^-1074\<close>). Overflow to Infinity (magnitudes from \<open>2^1024\<close>) is not represented. A
  JavaScript \<open>a * b\<close>, \<open>a + b\<close> or \<open>a / b\<close> on doubles is \<open>double\<close> of the exact result.
\<close>

definition pow2 :: "int \<Rightarrow> rat" where
  "pow2 e = (if 0 \<le> e then 2 ^ nat e else 1 / 2 ^ nat (- e))"

definition binaryExponent :: "rat \<Rightarrow> int" where
  \<comment> \<open>for \<open>x \<noteq> 0\<close>: the \<open>e\<close> with \<open>2^e \<le> |x| < 2^(e+1)\<close>\<close>
  "binaryExponent x =
     (let (p, q) = quotient_of \<bar>x\<bar>; e0 = bitlen p - bitlen q
      in if pow2 e0 \<le> \<bar>x\<bar> then e0 else e0 - 1)"

definition roundHalfEven :: "rat \<Rightarrow> int" where
  "roundHalfEven m =
     (let f = \<lfloor>m\<rfloor>; d = m - of_int f
      in if d < 1 / 2 then f else if 1 / 2 < d then f + 1 else if even f then f else f + 1)"

definition double :: "rat \<Rightarrow> rat" where
  "double x =
     (if x = 0 then 0
      else let e = max (binaryExponent x) (- 1022); ulp = pow2 (e - 52)
           in of_int (roundHalfEven (x / ulp)) * ulp)"

definition findActiveTimer :: "system \<Rightarrow> oid \<Rightarrow> Timer option" where
  \<comment> \<open>Timer.findOne({ user: userId, isActive: true })\<close>
  "findActiveTimer st userId = find (\<lambda>t. user t = userId \<and> isActive t) (timers st)"

definition findTask :: "system \<Rightarrow> oid \<Rightarrow> Task option" where
  "findTask st taskId = find (\<lambda>t. task_id t = taskId) (tasks st)"

definition findUser :: "system \<Rightarrow> oid \<Rightarrow> User option" where
  "findUser st userId = find (\<lambda>u. user_id u = userId) (users st)"

definition findGroup :: "system \<Rightarrow> oid \<Rightarrow> Group option" where
  "findGroup st groupId = find (\<lambda>g. group_id g = groupId) (groups st)"

definition findTimer :: "system \<Rightarrow> oid \<Rightarrow> Timer option" where
  \<comment> \<open>Timer.findById\<close>
  "findTimer st timerId = find (\<lambda>t. timer_id t = timerId) (timers st)"

definition newObjectId :: "system \<Rightarrow> oid" where
  \<comment> \<open>the _id of a new Timer document: different from every stored one\<close>
  "newObjectId st = Suc (fold max (map timer_id (timers st)) 0)"

definition insertTimer :: "system \<Rightarrow> Timer \<Rightarrow> system" where
  "insertTimer st t = st\<lparr>timers := timers st @ [t]\<rparr>"

text \<open>
  \<open>save()\<close> of a document that was loaded from the store writes the paths that were
  assigned a value different from the loaded one, and leaves the other paths of the
  stored document as they are. \<open>loaded\<close> is the document as the query returned it, \<open>t\<close>
  the document after the assignments. When the stored document still is the loaded one,
  the stored document becomes \<open>t\<close>. The only method that assigns to a loaded Timer is
  \<open>complete\<close>; it assigns endTime, isActive, isCompleted, duration, notes and
  completedOnTime.
\<close>

definition mergeTimer :: "Timer \<Rightarrow> Timer \<Rightarrow> Timer \<Rightarrow> Timer" where
  "mergeTimer stored loaded t =
     stored\<lparr>endTime := (if endTime t \<noteq> endTime loaded then endTime t else endTime stored),
            duration := (if duration t \<noteq> duration loaded then duration t else duration stored),
            isActive := (if isActive t \<noteq> isActive loaded then isActive t else isActive stored),
            isCompleted :=
              (if isCompleted t \<noteq> isCompleted loaded then isCompleted t else isCompleted stored),
            completedOnTime :=
              (if completedOnTime t \<noteq> completedOnTime loaded then completedOnTime t
               else completedOnTime stored),
            timer_notes :=
              (if timer_notes t \<noteq> timer_notes loaded then timer_notes t else timer_notes stored)\<rparr>"

definition saveTimer :: "system \<Rightarrow> Timer \<Rightarrow> Timer \<Rightarrow> system" where
  "saveTimer st loaded t =
     st\<lparr>timers := map (\<lambda>d. if timer_id d = timer_id t then mergeTimer d loaded t else d)
                       (timers st)\<rparr>"

definition saveTask :: "system \<Rightarrow> Task \<Rightarrow> system" where
  "saveTask st t = st\<lparr>tasks := map (\<lambda>d. if task_id d = task_id t then t else d) (tasks st)\<rparr>"

definition saveUser :: "system \<Rightarrow> User \<Rightarrow> system" where
  "saveUser st u = st\<lparr>users := map (\<lambda>d. if user_id d = user_id u then u else d) (users st)\<rparr>"

text \<open>
  The Task, User and Group documents that the timer service saves were loaded in the same
  run, so the stored document becomes the saved one. The socket handler saves
  \<open>socket.user\<close>, a User document loaded when the connection was made: only the paths
  that \<open>updateStats\<close> changed are written.
\<close>

definition mergeUser :: "User \<Rightarrow> User \<Rightarrow> User \<Rightarrow> User" where
  "mergeUser stored loaded u =
     stored\<lparr>tasksCompleted :=
              (if tasksCompleted u \<noteq> tasksCompleted loaded then tasksCompleted u
               else tasksCompleted stored),
            totalTimeSpent :=
              (if totalTimeSpent u \<noteq> totalTimeSpent loaded then totalTimeSpent u
               else totalTimeSpent stored),
            taskCompletionRate :=
              (if taskCompletionRate u \<noteq> taskCompletionRate loaded then taskCompletionRate u
               else taskCompletionRate stored),
            lastActive := (if lastActive u \<noteq> lastActive loaded then lastActive u else lastActive stored)\<rparr>"

definition saveLoadedUser :: "system \<Rightarrow> User \<Rightarrow> User \<Rightarrow> system" where
  "saveLoadedUser st loaded u =
     st\<lparr>users := map (\<lambda>d. if user_id d = user_id u then mergeUser d loaded u else d) (users st)\<rparr>"

definition saveGroup :: "system \<Rightarrow> Group \<Rightarrow> system" where
  "saveGroup st g = st\<lparr>groups := map (\<lambda>d. if group_id d = group_id g then g else d) (groups st)\<rparr>"

definition getRedisClient :: "Redis \<Rightarrow> error + Redis" where
  "getRedisClient r = (if initialised r then Inr r else Inl RedisNotInitialized)"

definition redis_set :: "Redis \<Rightarrow> cache_key \<Rightarrow> cache_val \<Rightarrow> time option \<Rightarrow> error + Redis" where
  "redis_set r k v expiry =
     (if setOk r then Inr (r\<lparr>entries := (entries r)(k \<mapsto> (v, expiry))\<rparr>)
      else Inl RedisCommandFailed)"

definition redis_del :: "Redis \<Rightarrow> cache_key \<Rightarrow> error + Redis" where
  "redis_del r k =
     (if delOk r then Inr (r\<lparr>entries := (entries r)(k := None)\<rparr>)
      else Inl RedisCommandFailed)"

definition redis_get :: "Redis \<Rightarrow> cache_key \<Rightarrow> time \<Rightarrow> error + cache_val option" where
  \<comment> \<open>an entry whose expiry instant has been reached is gone\<close>
  "redis_get r k now =
     (if getOk r then
        Inr (case entries r k of
               None \<Rightarrow> None
             | Some (v, None) \<Rightarrow> Some v
             | Some (v, Some e) \<Rightarrow> (if now < e then Some v else None))
      else Inl RedisCommandFailed)"

section \<open>Model methods\<close>

definition calculateDuration :: "Timer \<Rightarrow> time \<Rightarrow> int" where
  \<comment> \<open>timerSchema.methods.calculateDuration; \<open>now\<close> is the \<open>new Date()\<close> read when endTime is
      null. The quotient of an integer number of milliseconds in the range of Date by
      60000 and its double round to the same minute, so the exact quotient is used.\<close>
  "calculateDuration t now =
     (let endT = (case endTime t of Some e \<Rightarrow> e | None \<Rightarrow> now);
          durationMs = endT - startTime t
      in js_round (of_int durationMs / (1000 * 60)))"

definition Timer_complete :: "system \<Rightarrow> Timer \<Rightarrow> string \<Rightarrow> time \<Rightarrow> error + Timer" where
  \<comment> \<open>timerSchema.methods.complete, up to the write of \<open>save()\<close>: the document after the
      assignments, or the error of the validation that \<open>save()\<close> runs first (the notes
      path has \<open>maxlength: 500\<close>)\<close>
  "Timer_complete st t nts now =
     (let t1 = t\<lparr>endTime := Some now, isActive := False, isCompleted := True\<rparr>;
          t2 = t1\<lparr>duration := calculateDuration t1 now\<rparr>;
          t3 = (if nts \<noteq> [] then t2\<lparr>timer_notes := Some nts\<rparr> else t2);
          t4 = (case findTask st (task t3) of
                  Some tk \<Rightarrow> t3\<lparr>completedOnTime := (now \<le> dueDate tk)\<rparr>
                | None \<Rightarrow> t3)
      in if nts \<noteq> [] \<and> 500 < length nts then Inl ValidationError else Inr t4)"

definition markAsCompleted :: "Task \<Rightarrow> oid \<Rightarrow> int \<Rightarrow> time \<Rightarrow> Task" where
  \<comment> \<open>taskSchema.methods.markAsCompleted, up to the save\<close>
  "markAsCompleted tk userId timeSpent now =
     (let onTime = (now \<le> dueDate tk);
          t1 = tk\<lparr>completedBy := completedBy tk @
                 [\<lparr>c_user = userId, c_completedAt = now, c_timeSpent = timeSpent,
                   c_completedOnTime = onTime\<rparr>]\<rparr>;
          t2 = (if status t1 \<noteq> Completed
                then t1\<lparr>status := Completed, completedAt := Some now\<rparr> else t1)
      in t2\<lparr>activeTimers := max 0 (activeTimers t2 - 1)\<rparr>)"

definition Task_startTimer :: "Task \<Rightarrow> Task" where
  \<comment> \<open>taskSchema.methods.startTimer, up to the save\<close>
  "Task_startTimer tk =
     tk\<lparr>activeTimers := activeTimers tk + 1, totalTimers := totalTimers tk + 1,
        status := InProgress\<rparr>"

definition updateStats :: "User \<Rightarrow> int \<Rightarrow> bool \<Rightarrow> time \<Rightarrow> User" where
  \<comment> \<open>userSchema.methods.updateStats, up to the save; the rate is computed in doubles\<close>
  "updateStats u taskTime onTime now =
     (let u1 = u\<lparr>tasksCompleted := tasksCompleted u + 1\<rparr>;
          u2 = u1\<lparr>totalTimeSpent := totalTimeSpent u1 + taskTime\<rparr>;
          newCompletionRate =
            double (double (double (taskCompletionRate u2 * of_nat (tasksCompleted u2 - 1))
                            + (if onTime then 100 else 0))
                    / of_nat (tasksCompleted u2))
      in u2\<lparr>taskCompletionRate :=
              double (of_int (js_round (double (newCompletionRate * 100))) / 100),
            lastActive := now\<rparr>)"

definition Group_updateStats :: "Group \<Rightarrow> int \<Rightarrow> time \<Rightarrow> Group" where
  \<comment> \<open>groupSchema.methods.updateStats, up to the save\<close>
  "Group_updateStats g taskTime now =
     g\<lparr>completedTasks := completedTasks g + 1,
       group_totalTimeSpent := group_totalTimeSpent g + taskTime,
       group_lastActive := now\<rparr>"

section \<open>Timer service\<close>

record start_view =
  sv_id :: oid
  sv_task_id :: oid
  sv_dueDate :: time
  sv_startTime :: time
  sv_isActive :: bool

record complete_view =
  cv_id :: oid
  cv_task_id :: oid
  cv_task_status :: status
  cv_startTime :: time
  cv_endTime :: "time option"
  cv_duration :: int
  cv_completedOnTime :: bool
  cv_notes :: "string option"
  cv_isActive :: bool
  cv_isCompleted :: bool

record active_view =
  av_id :: oid
  av_task :: "Task option"
  av_startTime :: time
  av_duration :: int
  av_isActive :: bool

record page_view =
  pv_timers :: "Timer list"
  pv_page :: nat
  pv_limit :: nat
  pv_totalItems :: nat
  pv_totalPages :: "nat option"
  pv_hasNextPage :: bool
  pv_hasPrevPage :: bool

text \<open>
  The four \<open>new Date()\<close> / \<open>Date.now()\<close> reads of one completeTimer call, in the order
  they happen: in \<open>timer.complete\<close>, in \<open>task.markAsCompleted\<close>, in
  \<open>user.updateStats\<close> and in \<open>group.updateStats\<close>.
\<close>

record clock =
  timerNow :: time
  taskNow :: time
  userNow :: time
  groupNow :: time

definition hasAccess :: "system \<Rightarrow> Task \<Rightarrow> oid \<Rightarrow> bool" where
  \<comment> \<open>creator or assignee; for a task of a group, else leader or member of that group\<close>
  "hasAccess st tk userId =
     (let isCreator = (creator tk = userId);
          isAssignee = (userId \<in> set (assignees tk));
          acc = (isCreator \<or> isAssignee)
      in case task_group tk of
           None \<Rightarrow> acc
         | Some gid \<Rightarrow>
             (if \<not> acc then
                (case findGroup st gid of
                   Some g \<Rightarrow> userId \<in> set (leaders g) \<or> userId \<in> set (members g)
                 | None \<Rightarrow> acc)
              else acc))"

definition startTimer :: "system \<Rightarrow> oid \<Rightarrow> oid \<Rightarrow> time \<Rightarrow> (error + start_view) \<times> system" where
  "startTimer st taskId userId now =
     (case findActiveTimer st userId of
        Some _ \<Rightarrow> (Inl ActiveTimerExists, st)
      | None \<Rightarrow>
     (case findTask st taskId of
        None \<Rightarrow> (Inl TaskNotFound, st)
      | Some tk \<Rightarrow>
          if status tk = Completed \<or> status tk = Cancelled
          then (Inl (CannotStartTimer (status tk)), st)
          else if \<not> hasAccess st tk userId then (Inl NoPermissionToWork, st)
          else
            let isAssignee = (userId \<in> set (assignees tk));
                timer = \<lparr>timer_id = newObjectId st, task = taskId, user = userId,
                         timer_group = task_group tk, startTime = now, endTime = None,
                         duration = 0, isActive = True, isCompleted = False,
                         completedOnTime = False, timer_notes = None\<rparr>;
                st1 = insertTimer st timer;
                tk1 = Task_startTimer tk;
                st2 = saveTask st1 tk1;
                st3 = (if \<not> isAssignee
                       then saveTask st2 (tk1\<lparr>assignees := assignees tk1 @ [userId]\<rparr>)
                       else st2)
            in (case getRedisClient (redis st3) of
                  Inl e \<Rightarrow> (Inl e, st3)
                | Inr client \<Rightarrow>
                    (case redis_set client (TimerKey userId taskId) (TimerIdVal (timer_id timer)) None of
                       Inl e \<Rightarrow> (Inl e, st3)
                     | Inr r \<Rightarrow>
                         (Inr \<lparr>sv_id = timer_id timer, sv_task_id = task_id tk,
                               sv_dueDate = dueDate tk, sv_startTime = startTime timer,
                               sv_isActive = True\<rparr>,
                          st3\<lparr>redis := r\<rparr>)))))"

definition completeLoaded ::
    "system \<Rightarrow> oid \<Rightarrow> Timer \<Rightarrow> string \<Rightarrow> clock \<Rightarrow> (error + complete_view) \<times> system" where
  \<comment> \<open>the body of completeTimer after \<open>Timer.findOne\<close> has returned the document \<open>timer\<close>\<close>
  "completeLoaded st userId timer nts clk =
     (case findTask st (task timer) of
        None \<Rightarrow> (Inl TaskNotFound, st)
      | Some tk \<Rightarrow>
     (case Timer_complete st timer nts (timerNow clk) of
        Inl e \<Rightarrow> (Inl e, st)
      | Inr timer' \<Rightarrow>
          let st1 = saveTimer st timer timer';
              tk' = markAsCompleted tk userId (duration timer') (taskNow clk);
              st2 = saveTask st1 tk'
          in (case findUser st2 userId of
                None \<Rightarrow> (Inl NullDereference, st2)
              | Some u \<Rightarrow>
                  (let st3 = saveUser st2 (updateStats u (duration timer') (completedOnTime timer') (userNow clk));
                       st4 = (case task_group tk' of
                                None \<Rightarrow> st3
                              | Some gid \<Rightarrow>
                                  (case findGroup st3 gid of
                                     Some g \<Rightarrow> saveGroup st3 (Group_updateStats g (duration timer') (groupNow clk))
                                   | None \<Rightarrow> st3))
                   in (case getRedisClient (redis st4) of
                         Inl e \<Rightarrow> (Inl e, st4)
                       | Inr client \<Rightarrow>
                           (case redis_del client (TimerKey userId (task timer')) of
                              Inl e \<Rightarrow> (Inl e, st4)
                            | Inr r \<Rightarrow>
                                (Inr \<lparr>cv_id = timer_id timer', cv_task_id = task_id tk',
                                      cv_task_status = status tk', cv_startTime = startTime timer',
                                      cv_endTime = endTime timer', cv_duration = duration timer',
                                      cv_completedOnTime = completedOnTime timer',
                                      cv_notes = timer_notes timer', cv_isActive = False,
                                      cv_isCompleted = True\<rparr>,
                                 st4\<lparr>redis := r\<rparr>)))))))"

definition completeTimer :: "system \<Rightarrow> oid \<Rightarrow> string \<Rightarrow> clock \<Rightarrow> (error + complete_view) \<times> system" where
  "completeTimer st userId nts clk =
     (case findActiveTimer st userId of
        None \<Rightarrow> (Inl NoActiveTimer, st)
      | Some timer \<Rightarrow> completeLoaded st userId timer nts clk)"

definition getActiveTimer :: "system \<Rightarrow> oid \<Rightarrow> time \<Rightarrow> active_view option" where
  \<comment> \<open>a read: null when the user has no active timer\<close>
  "getActiveTimer st userId now =
     (case findActiveTimer st userId of
        None \<Rightarrow> None
      | Some timer \<Rightarrow>
          Some \<lparr>av_id = timer_id timer, av_task = findTask st (task timer),
                av_startTime = startTime timer, av_duration = calculateDuration timer now,
                av_isActive = True\<rparr>)"

definition listTaskTimers :: "system \<Rightarrow> oid \<Rightarrow> oid \<Rightarrow> nat \<Rightarrow> nat \<Rightarrow> error + page_view" where
  \<comment> \<open>a read. \<open>pageNum\<close> and \<open>limitNum\<close> are the parsed integers (the route validates
      page \<ge> 1 and 1 \<le> limit \<le> 100). A negative skip is rejected by the database, a limit
      of 0 means no limit, and a division by 0 makes totalPages non-finite (None).\<close>
  "listTaskTimers st taskId userId pageNum limitNum =
     (case findTask st taskId of
        None \<Rightarrow> Inl TaskNotFound
      | Some tk \<Rightarrow>
          if \<not> hasAccess st tk userId then Inl NoPermissionToView
          else
            let skip = (int pageNum - 1) * int limitNum;
                ofTask = filter (\<lambda>t. task t = taskId) (timers st);
                totalTimers = length ofTask;
                sorted_desc = sort_key (\<lambda>t. - startTime t) ofTask
            in if skip < 0 then Inl StoreError
               else
                 let skipped = drop (nat skip) sorted_desc;
                     page = (if limitNum = 0 then skipped else take limitNum skipped);
                     totalPages = (if limitNum = 0 then None
                                   else Some ((totalTimers + limitNum - 1) div limitNum))
                 in Inr \<lparr>pv_timers = page, pv_page = pageNum, pv_limit = limitNum,
                         pv_totalItems = totalTimers, pv_totalPages = totalPages,
                         pv_hasNextPage = (case totalPages of Some tp \<Rightarrow> pageNum < tp
                                           | None \<Rightarrow> 0 < totalTimers),
                         pv_hasPrevPage = (1 < pageNum)\<rparr>)"

section \<open>Socket handlers\<close>

definition socketTimerStart :: "system \<Rightarrow> oid \<Rightarrow> oid \<Rightarrow> time \<Rightarrow> (error + start_view) \<times> system" where
  \<comment> \<open>\<open>socket.on('timer:start')\<close> for the connection of user \<open>userId\<close>; the view leaves out
      the user's name\<close>
  "socketTimerStart st taskId userId now =
     (case findTask st taskId of
        None \<Rightarrow> (Inl TaskNotFound, st)
      | Some tk \<Rightarrow>
          if status tk = Completed \<or> status tk = Cancelled
          then (Inl (CannotStartTimer (status tk)), st)
          else
            let timer = \<lparr>timer_id = newObjectId st, task = taskId, user = userId,
                         timer_group = task_group tk, startTime = now, endTime = None,
                         duration = 0, isActive = True, isCompleted = False,
                         completedOnTime = False, timer_notes = None\<rparr>;
                st1 = insertTimer st timer;
                st2 = saveTask st1 (Task_startTimer tk)
            in (case getRedisClient (redis st2) of
                  Inl e \<Rightarrow> (Inl FailedToStartTimer, st2)
                | Inr client \<Rightarrow>
                    (case redis_set client (TimerKey userId taskId) (TimerIdVal (timer_id timer)) None of
                       Inl e \<Rightarrow> (Inl FailedToStartTimer, st2)
                     | Inr r \<Rightarrow>
                         (Inr \<lparr>sv_id = timer_id timer, sv_task_id = task_id tk,
                               sv_dueDate = dueDate tk, sv_startTime = startTime timer,
                               sv_isActive = True\<rparr>,
                          st2\<lparr>redis := r\<rparr>))))"

definition socketCompleteLoaded ::
    "system \<Rightarrow> User \<Rightarrow> oid \<Rightarrow> Timer \<Rightarrow> string \<Rightarrow> clock \<Rightarrow> (error + complete_view) \<times> system" where
  \<comment> \<open>the body of \<open>socket.on('timer:complete')\<close> after \<open>Timer.findById\<close> has returned the
      active document \<open>timer\<close>. \<open>sockUser\<close> is \<open>socket.user\<close>, the User document the
      connection holds in memory; saving a document that is no longer stored throws.\<close>
  "socketCompleteLoaded st sockUser taskId timer nts clk =
     (case Timer_complete st timer nts (timerNow clk) of
        Inl e \<Rightarrow> (Inl FailedToCompleteTimer, st)
      | Inr timer' \<Rightarrow>
          let st1 = saveTimer st timer timer'
          in (case findTask st1 taskId of
                None \<Rightarrow> (Inl TaskNotFound, st1)
              | Some tk \<Rightarrow>
                  (let tk' = markAsCompleted tk (user_id sockUser) (duration timer') (taskNow clk);
                       st2 = saveTask st1 tk'
                   in (case findUser st2 (user_id sockUser) of
                         None \<Rightarrow> (Inl FailedToCompleteTimer, st2)
                       | Some _ \<Rightarrow>
                           (let st3 = saveLoadedUser st2 sockUser
                                        (updateStats sockUser (duration timer') (completedOnTime timer') (userNow clk));
                                st4 = (case task_group tk' of
                                         None \<Rightarrow> st3
                                       | Some gid \<Rightarrow>
                                           (case findGroup st3 gid of
                                              Some g \<Rightarrow> saveGroup st3 (Group_updateStats g (duration timer') (groupNow clk))
                                            | None \<Rightarrow> st3))
                            in (case redis_del (redis st4) (TimerKey (user_id sockUser) taskId) of
                                  Inl e \<Rightarrow> (Inl FailedToCompleteTimer, st4)
                                | Inr r \<Rightarrow>
                                    (Inr \<lparr>cv_id = timer_id timer', cv_task_id = task_id tk',
                                          cv_task_status = status tk', cv_startTime = startTime timer',
                                          cv_endTime = endTime timer', cv_duration = duration timer',
                                          cv_completedOnTime = completedOnTime timer',
                                          cv_notes = None, cv_isActive = False,
                                          cv_isCompleted = True\<rparr>,
                                     st4\<lparr>redis := r\<rparr>)))))))"

definition socketTimerComplete ::
    "system \<Rightarrow> User \<Rightarrow> oid \<Rightarrow> string \<Rightarrow> clock \<Rightarrow> (error + complete_view) \<times> system" where
  \<comment> \<open>\<open>socket.on('timer:complete')\<close>: the timer is looked up through the cache entry of
      (user, task); a cached value that is not a Timer id makes \<open>findById\<close> throw\<close>
  "socketTimerComplete st sockUser taskId nts clk =
     (case getRedisClient (redis st) of
        Inl e \<Rightarrow> (Inl FailedToCompleteTimer, st)
      | Inr client \<Rightarrow>
          (case redis_get client (TimerKey (user_id sockUser) taskId) (timerNow clk) of
             Inl e \<Rightarrow> (Inl FailedToCompleteTimer, st)
           | Inr None \<Rightarrow> (Inl NoActiveTimerForTask, st)
           | Inr (Some (LeaderboardVal _)) \<Rightarrow> (Inl FailedToCompleteTimer, st)
           | Inr (Some (TimerIdVal timerId)) \<Rightarrow>
               (case findTimer st timerId of
                  None \<Rightarrow> (Inl TimerNotFoundOrCompleted, st)
                | Some timer \<Rightarrow>
                    if \<not> isActive timer then (Inl TimerNotFoundOrCompleted, st)
                    else socketCompleteLoaded st sockUser taskId timer nts clk)))"

section \<open>Runs of the operations\<close>

text \<open>
  The operations that write Timer documents, and the reads of the timer service, as one
  step function on the state. \<open>timer:get:active\<close> is the same read as getActiveTimer.
\<close>

datatype op =
    StartTimer oid oid time
  | CompleteTimer oid string clock
  | GetActiveTimer oid time
  | ListTaskTimers oid oid nat nat
  | SocketTimerStart oid oid time
  | SocketTimerComplete User oid string clock

fun exec :: "system \<Rightarrow> op \<Rightarrow> system" where
  "exec st (StartTimer taskId userId now) = snd (startTimer st taskId userId now)"
| "exec st (CompleteTimer userId nts clk) = snd (completeTimer st userId nts clk)"
| "exec st (GetActiveTimer userId now) = st"
| "exec st (ListTaskTimers taskId userId pageNum limitNum) = st"
| "exec st (SocketTimerStart taskId userId now) = snd (socketTimerStart st taskId userId now)"
| "exec st (SocketTimerComplete sockUser taskId nts clk) =
     snd (socketTimerComplete st sockUser taskId nts clk)"

definition activeTimersOf :: "system \<Rightarrow> oid \<Rightarrow> Timer list" where
  "activeTimersOf st userId = filter (\<lambda>t. user t = userId \<and> isActive t) (timers st)"

definition atMostOneActive :: "system \<Rightarrow> bool" where
  "atMostOneActive st = (\<forall>userId. length (activeTimersOf st userId) \<le> 1)"

text \<open>
  \<open>later st st'\<close>: the state \<open>st'\<close> comes from \<open>st\<close> by requests that run one after another,
  none of them overlapping another. A request is one of the operations above, or any
  other request of the application: those (task, group, user and authentication
  services, leaderboards) read Timer documents but write none.
\<close>

inductive later :: "system \<Rightarrow> system \<Rightarrow> bool" where
  refl: "later st st"
| other: "later st st' \<Longrightarrow> timers st'' = timers st' \<Longrightarrow> later st st''"
| timer_op: "later st st' \<Longrightarrow> later st (exec st' op)"

section \<open>Leaderboard service\<close>

record stats =
  s_tasksCompleted :: nat
  s_totalTime :: int
  s_tasksCompletedOnTime :: nat

record options =
  opt_timeFrame :: "string option"
  opt_limit :: "nat option"

text \<open>
  The instants one generateGlobalLeaderboard call reads: the \<open>new Date()\<close> of the time
  window, the instant the cache is read and the instant the cache is written.
\<close>

record lb_clock =
  windowNow :: time
  getNow :: time
  setNow :: time

definition dayMs :: int where
  "dayMs = 24 * 60 * 60 * 1000"

definition daysAgo :: "time \<Rightarrow> int \<Rightarrow> time" where
  \<comment> \<open>\<open>d.setDate(d.getDate() - n)\<close> for a process whose time zone is UTC (the node:18-alpine
      image of the Dockerfile sets none), where a calendar day is 24 hours\<close>
  "daysAgo now n = now - n * dayMs"

definition groupTimeFilter :: "string \<Rightarrow> time \<Rightarrow> time option" where
  "groupTimeFilter timeFrame now =
     (if timeFrame = ''week'' then Some (daysAgo now 7)
      else if timeFrame = ''month'' then Some (daysAgo now 30)
      else None)"

definition globalTimeFilter :: "string \<Rightarrow> time \<Rightarrow> time option" where
  "globalTimeFilter timeFrame now =
     (if timeFrame = ''week'' then Some (daysAgo now 7)
      else if timeFrame = ''month'' then Some (daysAgo now 30)
      else if timeFrame = ''year'' then Some (daysAgo now 365)
      else None)"

definition matchesTime :: "time option \<Rightarrow> Timer \<Rightarrow> bool" where
  \<comment> \<open>\<open>endTime: { $gte: cutoff }\<close> when a cutoff is set; a null endTime does not match\<close>
  "matchesTime cutoff t =
     (case cutoff of
        None \<Rightarrow> True
      | Some c \<Rightarrow> (case endTime t of Some e \<Rightarrow> c \<le> e | None \<Rightarrow> False))"

definition zeroStats :: stats where
  "zeroStats = \<lparr>s_tasksCompleted = 0, s_totalTime = 0, s_tasksCompletedOnTime = 0\<rparr>"

definition addTimerStats :: "(oid \<rightharpoonup> stats) \<Rightarrow> Timer \<Rightarrow> (oid \<rightharpoonup> stats)" where
  \<comment> \<open>the body of the loop \<open>for (const timer of timers)\<close>\<close>
  "addTimerStats userStats timer =
     (let s = (case userStats (user timer) of None \<Rightarrow> zeroStats | Some s \<Rightarrow> s)
      in userStats(user timer \<mapsto>
           s\<lparr>s_tasksCompleted := s_tasksCompleted s + 1,
             s_totalTime := s_totalTime s + duration timer,
             s_tasksCompletedOnTime :=
               s_tasksCompletedOnTime s + (if completedOnTime timer then 1 else 0)\<rparr>))"

definition completionRateOf :: "stats \<Rightarrow> int" where
  \<comment> \<open>\<open>Math.round((onTime / completed) * 100)\<close> in doubles\<close>
  "completionRateOf s =
     (if s_tasksCompleted s > 0
      then js_round (double (double (of_nat (s_tasksCompletedOnTime s) / of_nat (s_tasksCompleted s)) * 100))
      else 0)"

definition fullName :: "User \<Rightarrow> string" where
  "fullName u = firstName u @ '' '' @ lastName u"

definition groupTimers :: "system \<Rightarrow> oid \<Rightarrow> Group \<Rightarrow> string \<Rightarrow> time \<Rightarrow> Timer list" where
  \<comment> \<open>the completed timers of the group's tasks and users inside the time window\<close>
  "groupTimers st groupId g timeFrame now =
     (let userIds = members g @ leaders g;
          taskIds = map task_id (filter (\<lambda>t. task_group t = Some groupId) (tasks st))
      in filter (\<lambda>t. task t \<in> set taskIds \<and> user t \<in> set userIds \<and> isCompleted t \<and>
                      matchesTime (groupTimeFilter timeFrame now) t) (timers st))"

definition groupTimeFrame :: "options \<Rightarrow> string" where
  \<comment> \<open>\<open>const { timeFrame = 'all' } = options\<close>\<close>
  "groupTimeFrame opts = (case opt_timeFrame opts of None \<Rightarrow> ''all'' | Some tf \<Rightarrow> tf)"

definition globalTimeFrame :: "options \<Rightarrow> string" where
  \<comment> \<open>\<open>const { timeFrame = 'month', limit = 10 } = options\<close>\<close>
  "globalTimeFrame opts = (case opt_timeFrame opts of None \<Rightarrow> ''month'' | Some tf \<Rightarrow> tf)"

definition globalLimit :: "options \<Rightarrow> nat" where
  "globalLimit opts = (case opt_limit opts of None \<Rightarrow> 10 | Some l \<Rightarrow> l)"

definition generateGroupLeaderboard :: "system \<Rightarrow> oid \<Rightarrow> options \<Rightarrow> time \<Rightarrow> error + lb_entry list" where
  \<comment> \<open>a read of the store; the sort is the stable Array.prototype.sort\<close>
  "generateGroupLeaderboard st groupId opts now =
     (let timeFrame = groupTimeFrame opts
      in case findGroup st groupId of
           None \<Rightarrow> Inl GroupNotFound
         | Some g \<Rightarrow>
             (let userIds = members g @ leaders g;
                  userStats = foldl addTimerStats Map.empty (groupTimers st groupId g timeFrame now);
                  found = filter (\<lambda>u. user_id u \<in> set userIds) (users st);
                  leaderboard = map (\<lambda>u.
                      let s = (case userStats (user_id u) of None \<Rightarrow> zeroStats | Some s \<Rightarrow> s)
                      in \<lparr>lb_user = user_id u, lb_name = fullName u,
                          lb_tasksCompleted = s_tasksCompleted s, lb_totalTime = s_totalTime s,
                          lb_completionRate = completionRateOf s,
                          lb_isLeader = Some (user_id u \<in> set (leaders g))\<rparr>) found
              in Inr (sort_key (\<lambda>e. - int (lb_tasksCompleted e)) leaderboard)))"

definition statsOf :: "oid \<Rightarrow> Timer list \<Rightarrow> stats" where
  \<comment> \<open>the accumulators of the $group stage for one user\<close>
  "statsOf u ts =
     (let mine = filter (\<lambda>t. user t = u) ts
      in \<lparr>s_tasksCompleted = length mine, s_totalTime = sum_list (map duration mine),
          s_tasksCompletedOnTime = length (filter completedOnTime mine)\<rparr>)"

definition globalTimers :: "system \<Rightarrow> string \<Rightarrow> time \<Rightarrow> Timer list" where
  \<comment> \<open>the $match stage: completed timers of public groups inside the time window\<close>
  "globalTimers st timeFrame now =
     (let publicGroupIds = map group_id (filter isPublic (groups st))
      in filter (\<lambda>t. (case timer_group t of Some gid \<Rightarrow> gid \<in> set publicGroupIds | None \<Rightarrow> False)
                      \<and> isCompleted t \<and> matchesTime (globalTimeFilter timeFrame now) t)
           (timers st))"

definition aggregateTimers :: "system \<Rightarrow> string \<Rightarrow> nat \<Rightarrow> time \<Rightarrow> error + (oid \<times> stats) list" where
  \<comment> \<open>Timer.aggregate(pipeline): $match, $group by user (groups in order of first
      occurrence), $sort by tasksCompleted descending, $limit. The database rejects a
      $limit that is not positive.\<close>
  "aggregateTimers st timeFrame limit now =
     (let matched = globalTimers st timeFrame now;
          grouped = map (\<lambda>u. (u, statsOf u matched)) (remdups (map user matched));
          sorted_desc = sort_key (\<lambda>(u, s). - int (s_tasksCompleted s)) grouped
      in if limit * 2 = 0 then Inl StoreError else Inr (take (limit * 2) sorted_desc))"

definition computeGlobalLeaderboard :: "system \<Rightarrow> string \<Rightarrow> nat \<Rightarrow> time \<Rightarrow> error + lb_entry list" where
  \<comment> \<open>the part of generateGlobalLeaderboard between the cache read and the cache write\<close>
  "computeGlobalLeaderboard st timeFrame limit now =
     (case aggregateTimers st timeFrame limit now of
        Inl e \<Rightarrow> Inl e
      | Inr timerStats \<Rightarrow>
          (let userIds = map fst timerStats;
               found = filter (\<lambda>u. user_id u \<in> set userIds) (users st);
               userMap = foldl (\<lambda>m u. m(user_id u \<mapsto> u)) Map.empty found
           in Inr (List.map_filter (\<lambda>(uid, s).
                     case userMap uid of
                       None \<Rightarrow> None
                     | Some u \<Rightarrow>
                         Some \<lparr>lb_user = user_id u, lb_name = fullName u,
                               lb_tasksCompleted = s_tasksCompleted s,
                               lb_totalTime = s_totalTime s,
                               lb_completionRate = completionRateOf s,
                               lb_isLeader = None\<rparr>) timerStats)))"

definition generateGlobalLeaderboard ::
    "system \<Rightarrow> options \<Rightarrow> lb_clock \<Rightarrow> (error + lb_entry list) \<times> system" where
  \<comment> \<open>the cached value is the JSON text of the list; a value that does not parse to a
      list throws inside the try block and is treated as a miss\<close>
  "generateGlobalLeaderboard st opts clk =
     (let timeFrame = globalTimeFrame opts;
          limit = globalLimit opts
      in case getRedisClient (redis st) of
           Inl e \<Rightarrow> (Inl e, st)
         | Inr client \<Rightarrow>
             (let cacheKey = GlobalLeaderboardKey timeFrame
              in case redis_get client cacheKey (getNow clk) of
                   Inr (Some (LeaderboardVal cached)) \<Rightarrow> (Inr (take limit cached), st)
                 | _ \<Rightarrow>
                     (case computeGlobalLeaderboard st timeFrame limit (windowNow clk) of
                        Inl e \<Rightarrow> (Inl e, st)
                      | Inr leaderboard \<Rightarrow>
                          (case redis_set client cacheKey (LeaderboardVal leaderboard)
                                  (Some (setNow clk + 60 * 60 * 1000)) of
                             Inl _ \<Rightarrow> (Inr (take limit leaderboard), st)
                           | Inr r \<Rightarrow> (Inr (take limit leaderboard), st\<lparr>redis := r\<rparr>)))))"

section \<open>A small concrete world\<close>

text \<open>
  Three users, one public group led by user 7 with members 8 and 9, and one task of that
  group due one hour after the epoch. \<open>world1\<close> is \<open>world0\<close> after user 7 has started a
  timer on the task at instant 0.
\<close>

definition alice :: User where
  "alice = \<lparr>user_id = 7, firstName = ''Alice'', lastName = ''Ng'', tasksCompleted = 0,
             taskCompletionRate = 0, totalTimeSpent = 0, lastActive = 0\<rparr>"

definition bob :: User where
  "bob = \<lparr>user_id = 8, firstName = ''Bob'', lastName = ''Roy'', tasksCompleted = 0,
           taskCompletionRate = 0, totalTimeSpent = 0, lastActive = 0\<rparr>"

definition carol :: User where
  "carol = \<lparr>user_id = 9, firstName = ''Carol'', lastName = ''Paz'', tasksCompleted = 0,
             taskCompletionRate = 0, totalTimeSpent = 0, lastActive = 0\<rparr>"

definition team :: Group where
  "team = \<lparr>group_id = 100, isPublic = True, leaders = [7], members = [8, 9],
            completedTasks = 0, group_totalTimeSpent = 0, group_lastActive = 0\<rparr>"

definition taskX :: Task where
  "taskX = \<lparr>task_id = 1, creator = 7, task_group = Some 100, assignees = [7],
             status = Pending, dueDate = 3600000, completedAt = None, completedBy = [],
             activeTimers = 0, totalTimers = 0\<rparr>"

definition redisUp :: Redis where
  "redisUp = \<lparr>initialised = True, getOk = True, setOk = True, delOk = True,
               entries = Map.empty\<rparr>"

definition world0 :: system where
  "world0 = \<lparr>timers = [], tasks = [taskX], users = [alice, bob, carol], groups = [team],
              redis = redisUp\<rparr>"

definition timerA :: Timer where
  "timerA = \<lparr>timer_id = 1, task = 1, user = 7, timer_group = Some 100, startTime = 0,
              endTime = None, duration = 0, isActive = True, isCompleted = False,
              completedOnTime = False, timer_notes = None\<rparr>"

definition world1 :: system where
  "world1 = \<lparr>timers = [timerA],
              tasks = [taskX\<lparr>activeTimers := 1, totalTimers := 1, status := InProgress\<rparr>],
              users = [alice, bob, carol], groups = [team],
              redis = redisUp\<lparr>entries := [TimerKey 7 1 \<mapsto> (TimerIdVal 1, None)]\<rparr>\<rparr>"

definition tenMinutes :: clock where
  "tenMinutes = \<lparr>timerNow = 600000, taskNow = 600001, userNow = 600002, groupNow = 600003\<rparr>"

definition ninetySeconds :: clock where
  "ninetySeconds = \<lparr>timerNow = 90000, taskNow = 90001, userNow = 90002, groupNow = 90003\<rparr>"

text \<open>The task after user 7 has completed it once while user 8 still has a timer on it.\<close>

definition taskDone :: Task where
  "taskDone = \<lparr>task_id = 1, creator = 7, task_group = Some 100, assignees = [7, 8],
                status = Completed, dueDate = 3600000, completedAt = Some 600001,
                completedBy = [\<lparr>c_user = 7, c_completedAt = 600001, c_timeSpent = 10,
                                c_completedOnTime = True\<rparr>],
                activeTimers = 1, totalTimers = 2\<rparr>"

text \<open>\<open>world1\<close> after user 7 has completed the timer, with the task's due date then moved.\<close>

definition dueDateMoved :: system where
  "dueDateMoved = (snd (completeTimer world1 7 [] tenMinutes))\<lparr>tasks := [taskX\<lparr>dueDate := 0\<rparr>]\<rparr>"

text \<open>Timer documents have distinct _id values.\<close>

definition uniqueTimerIds :: "system \<Rightarrow> bool" where
  "uniqueTimerIds st = distinct (map timer_id (timers st))"

text \<open>\<open>world2\<close> is \<open>world1\<close> after user 7 has completed the timer ten minutes later.\<close>

definition timerA_done :: Timer where
  "timerA_done = timerA\<lparr>endTime := Some 600000, duration := 10, isActive := False,
                          isCompleted := True, completedOnTime := True\<rparr>"

definition taskX_done :: Task where
  "taskX_done = taskX\<lparr>status := Completed, completedAt := Some 600001,
       completedBy := [\<lparr>c_user = 7, c_completedAt = 600001, c_timeSpent = 10,
                        c_completedOnTime = True\<rparr>],
       activeTimers := 0, totalTimers := 1\<rparr>"

definition world2 :: system where
  "world2 = \<lparr>timers = [timerA_done], tasks = [taskX_done],
              users = [alice\<lparr>tasksCompleted := 1, taskCompletionRate := 100,
                             totalTimeSpent := 10, lastActive := 600002\<rparr>, bob, carol],
              groups = [team\<lparr>completedTasks := 1, group_totalTimeSpent := 10,
                             group_lastActive := 600003\<rparr>],
              redis = redisUp\<rparr>"

text \<open>States whose cache rejects a write or a delete.\<close>

definition setFails :: system where
  "setFails = world0\<lparr>redis := redisUp\<lparr>setOk := False\<rparr>\<rparr>"

definition delFails :: system where
  "delFails = world1\<lparr>redis := (redis world1)\<lparr>delOk := False\<rparr>\<rparr>"

definition writeFails :: system where
  "writeFails = world2\<lparr>redis := redisUp\<lparr>setOk := False\<rparr>\<rparr>"

text \<open>
  Leaderboard requests with default options, and a state with no Timer document whose
  cache holds a global leaderboard.
\<close>

definition noOptions :: options where
  "noOptions = \<lparr>opt_timeFrame = None, opt_limit = None\<rparr>"

definition lbNow :: lb_clock where
  "lbNow = \<lparr>windowNow = 700000, getNow = 700001, setNow = 700002\<rparr>"

definition aliceRow :: lb_entry where
  "aliceRow = \<lparr>lb_user = 7, lb_name = ''Alice Ng'', lb_tasksCompleted = 1, lb_totalTime = 10,
                lb_completionRate = 100, lb_isLeader = None\<rparr>"

definition cachedWorld :: system where
  "cachedWorld = world0\<lparr>redis := redisUp\<lparr>entries :=
       [GlobalLeaderboardKey ''month'' \<mapsto> (LeaderboardVal [aliceRow], Some 4300002)]\<rparr>\<rparr>"

text \<open>The second timer that user 7 gets through the socket handler at instant 5000.\<close>

definition timerA2 :: Timer where
  "timerA2 = \<lparr>timer_id = 2, task = 1, user = 7, timer_group = Some 100, startTime = 5000,
               endTime = None, duration = 0, isActive = True, isCompleted = False,
               completedOnTime = False, timer_notes = None\<rparr>"

text \<open>
  Two overlapping completeTimer requests of user 7. The task is due at 600500. Both
  requests get \<open>timerA\<close> from \<open>Timer.findOne\<close> in \<open>tightWorld\<close>; the first runs to its end
  with the clock \<open>tenMinutes\<close>, then the second continues with the clock \<open>afterDue\<close>.
\<close>

definition tightWorld :: system where
  "tightWorld = world1\<lparr>tasks :=
     [taskX\<lparr>dueDate := 600500, activeTimers := 1, totalTimers := 1, status := InProgress\<rparr>]\<rparr>"

definition afterDue :: clock where
  "afterDue = \<lparr>timerNow = 601000, taskNow = 601001, userNow = 601002, groupNow = 601003\<rparr>"

definition overlapped :: system where
  "overlapped =
     snd (completeLoaded (snd (completeTimer tightWorld 7 [] tenMinutes)) 7 timerA [] afterDue)"

text \<open>
  A user after nine completions, on time or late as listed, each of one minute; and a
  user with 13 completions whose stored rate is the double nearest to 30.77.
\<close>

definition nineCompletions :: User where
  "nineCompletions =
     foldl (\<lambda>u onTime. updateStats u 1 onTime 0) alice
       [False, False, True, False, True, False, True, True, True]"

definition thirteen :: User where
  "thirteen = alice\<lparr>tasksCompleted := 13, taskCompletionRate := double (3077 / 100)\<rparr>"

text \<open>
  A global leaderboard of the last week, computed seven days after the epoch, when the
  timer that ended at 600000 is inside the window, and read again twenty minutes later.
\<close>

definition weekOptions :: options where
  "weekOptions = \<lparr>opt_timeFrame = Some ''week'', opt_limit = None\<rparr>"

definition weekFirst :: lb_clock where
  "weekFirst = \<lparr>windowNow = 604800000, getNow = 604800001, setNow = 604800002\<rparr>"

definition weekLater :: lb_clock where
  "weekLater = \<lparr>windowNow = 606000000, getNow = 606000001, setNow = 606000002\<rparr>"

definition staleWeek :: system where
  "staleWeek = world2\<lparr>redis := redisUp\<lparr>entries :=
       [GlobalLeaderboardKey ''week'' \<mapsto> (LeaderboardVal [aliceRow], Some 608400002)]\<rparr>\<rparr>"

section \<open>Evaluation on concrete states\<close>

lemmas world_defs = world0_def world1_def alice_def bob_def carol_def team_def taskX_def
  redisUp_def timerA_def tenMinutes_def

lemmas service_defs = startTimer_def completeTimer_def completeLoaded_def findActiveTimer_def
  findTask_def findUser_def findGroup_def findTimer_def hasAccess_def newObjectId_def
  insertTimer_def saveTimer_def mergeTimer_def saveTask_def saveUser_def saveGroup_def
  getRedisClient_def redis_set_def redis_del_def Task_startTimer_def Timer_complete_def
  markAsCompleted_def updateStats_def Group_updateStats_def calculateDuration_def Let_def

lemma js_round_of_int: "js_round (of_int n) = n"
  unfolding js_round_def by (rule floor_unique) simp_all

lemma js_round_numeral [simp]: "js_round (numeral k) = numeral k"
  using js_round_of_int [of "numeral k"] by simp

lemma js_round_0 [simp]: "js_round 0 = 0"
  using js_round_of_int [of 0] by simp

lemma js_round_1 [simp]: "js_round 1 = 1"
  using js_round_of_int [of 1] by simp

lemma double_0 [simp]: "double 0 = 0"
  by (simp add: double_def)

lemma double_1 [simp]: "double 1 = 1"
  by code_simp

lemma double_100 [simp]: "double 100 = 100"
  by code_simp

lemma double_10000 [simp]: "double 10000 = 10000"
  by code_simp

section \<open>The timer service: errors and the active-timer invariant\<close>

lemma findActiveTimer_None_iff:
  "findActiveTimer st userId = None \<longleftrightarrow> \<not> (\<exists>t\<in>set (timers st). user t = userId \<and> isActive t)"
  by (auto simp: findActiveTimer_def find_None_iff)

lemma findActiveTimer_None_filter:
  "findActiveTimer st userId = None \<longleftrightarrow> activeTimersOf st userId = []"
  by (auto simp: findActiveTimer_def find_None_iff activeTimersOf_def filter_empty_conv)

lemma find_Some_set: "find P xs = Some x \<Longrightarrow> x \<in> set xs \<and> P x"
  by (induction xs) (auto split: if_splits)

lemma findActiveTimer_Some:
  "findActiveTimer st userId = Some t \<Longrightarrow> t \<in> set (timers st) \<and> user t = userId \<and> isActive t"
  unfolding findActiveTimer_def by (drule find_Some_set) simp

text \<open>
  Claim C2. When the user already has a Timer with isActive = true, startTimer fails
  with the active-timer-exists error and returns the state it was given: no Timer is
  created, no Task changes and the cache is untouched.
\<close>

theorem startTimer_rejects_second_timer:
  assumes "\<exists>t\<in>set (timers st). user t = userId \<and> isActive t"
  shows "startTimer st taskId userId now = (Inl ActiveTimerExists, st)"
proof -
  from assms obtain t where "findActiveTimer st userId = Some t"
    using findActiveTimer_None_iff [of st userId] by (cases "findActiveTimer st userId") auto
  then show ?thesis by (simp add: startTimer_def)
qed

text \<open>
  The theorem of claim C2 at a concrete state.
\<close>

theorem startTimer_rejects_second_timer_witness:
  "(\<exists>t\<in>set (timers world1). user t = 7 \<and> isActive t)
   \<and> startTimer world1 1 7 5000 = (Inl ActiveTimerExists, world1)"
proof -
  have h: "\<exists>t\<in>set (timers world1). user t = 7 \<and> isActive t"
    by (simp add: world_defs)
  from startTimer_rejects_second_timer [OF h] h show ?thesis by simp
qed

text \<open>
  Claim C3. When the user has no Timer with isActive = true, completeTimer fails with
  the no-active-timer error and returns the state it was given: no Timer, Task, User or
  Group document changes and the cache is untouched.
\<close>

theorem completeTimer_without_active_timer:
  assumes "\<not> (\<exists>t\<in>set (timers st). user t = userId \<and> isActive t)"
  shows "completeTimer st userId nts clk = (Inl NoActiveTimer, st)"
  using assms findActiveTimer_None_iff [of st userId] by (simp add: completeTimer_def)

text \<open>
  The theorem of claim C3 at a concrete state.
\<close>

theorem completeTimer_without_active_timer_witness:
  "\<not> (\<exists>t\<in>set (timers world1). user t = 8 \<and> isActive t)
   \<and> completeTimer world1 8 ''done'' tenMinutes = (Inl NoActiveTimer, world1)"
proof -
  have h: "\<not> (\<exists>t\<in>set (timers world1). user t = 8 \<and> isActive t)"
    by (simp add: world_defs)
  from completeTimer_without_active_timer [OF h] h show ?thesis by simp
qed

lemma timers_saveTask [simp]: "timers (saveTask st t) = timers st"
  by (simp add: saveTask_def)
lemma timers_saveUser [simp]: "timers (saveUser st t) = timers st"
  by (simp add: saveUser_def)
lemma timers_saveLoadedUser [simp]: "timers (saveLoadedUser st l t) = timers st"
  by (simp add: saveLoadedUser_def)
lemma timers_saveGroup [simp]: "timers (saveGroup st t) = timers st"
  by (simp add: saveGroup_def)

lemma mergeTimer_fixed [simp]:
  "timer_id (mergeTimer d l t) = timer_id d"
  "user (mergeTimer d l t) = user d"
  "task (mergeTimer d l t) = task d"
  "startTime (mergeTimer d l t) = startTime d"
  by (simp_all add: mergeTimer_def)

lemma mergeTimer_inactive:
  "isActive l \<Longrightarrow> \<not> isActive t \<Longrightarrow> \<not> isActive (mergeTimer d l t)"
  by (simp add: mergeTimer_def)

lemma Timer_complete_Inr:
  assumes "Timer_complete st t nts now = Inr t'"
  shows "isActive t' = False" "isCompleted t' = True" "user t' = user t" "task t' = task t"
    "timer_id t' = timer_id t" "startTime t' = startTime t" "endTime t' = Some now"
    "timer_group t' = timer_group t"
  using assms by (auto simp: Timer_complete_def Let_def split: option.splits if_splits)

lemma Timer_complete_valid:
  "length nts \<le> 500 \<Longrightarrow> \<exists>t'. Timer_complete st t nts now = Inr t'"
  by (simp add: Timer_complete_def Let_def)

lemma Timer_complete_invalid:
  "500 < length nts \<Longrightarrow> Timer_complete st t nts now = Inl ValidationError"
  by (auto simp: Timer_complete_def Let_def)

lemma mergeTimer_same:
  assumes "Timer_complete st t nts now = Inr t'"
  shows "mergeTimer t t t' = t'"
proof -
  have pick: "(if a \<noteq> b then a else b) = a" for a b :: 'a by simp
  show ?thesis
    by (rule Timer.equality) (simp_all add: mergeTimer_def pick Timer_complete_Inr [OF assms])
qed

lemma timers_startTimer:
  "timers (snd (startTimer st taskId userId now)) = timers st \<or>
   (findActiveTimer st userId = None \<and>
    (\<exists>t. timers (snd (startTimer st taskId userId now)) = timers st @ [t] \<and> user t = userId
        \<and> timer_id t = newObjectId st \<and> isActive t))"
  by (auto simp: startTimer_def Let_def insertTimer_def split: option.splits sum.splits)

lemma timers_completeLoaded:
  "timers (snd (completeLoaded st userId t nts clk)) = timers st \<or>
   (\<exists>t' tk. findTask st (task t) = Some tk \<and> Timer_complete st t nts (timerNow clk) = Inr t' \<and>
      timers (snd (completeLoaded st userId t nts clk)) = timers (saveTimer st t t'))"
  by (auto simp: completeLoaded_def Let_def split: option.splits sum.splits)

lemma timers_completeTimer:
  "timers (snd (completeTimer st userId nts clk)) = timers st \<or>
   (\<exists>t t' tk. findActiveTimer st userId = Some t \<and> findTask st (task t) = Some tk \<and>
      Timer_complete st t nts (timerNow clk) = Inr t' \<and>
      timers (snd (completeTimer st userId nts clk)) = timers (saveTimer st t t'))"
proof (cases "findActiveTimer st userId")
  case None
  then show ?thesis by (simp add: completeTimer_def)
next
  case (Some t)
  with timers_completeLoaded [of st userId t nts clk] show ?thesis
    by (auto simp: completeTimer_def)
qed

lemma length_filter_merge:
  assumes "isActive l" and "\<not> isActive t'"
  shows "length (filter (\<lambda>t. user t = u \<and> isActive t)
           (map (\<lambda>d. if timer_id d = k then mergeTimer d l t' else d) xs))
         \<le> length (filter (\<lambda>t. user t = u \<and> isActive t) xs)"
  using assms by (induction xs) (auto simp: mergeTimer_inactive)

lemma startTimer_preserves:
  assumes "atMostOneActive st"
  shows "atMostOneActive (snd (startTimer st taskId userId now))"
proof -
  let ?st' = "snd (startTimer st taskId userId now)"
  from timers_startTimer [of st taskId userId now]
  consider (same) "timers ?st' = timers st"
    | (new) t where "findActiveTimer st userId = None" "timers ?st' = timers st @ [t]"
        "user t = userId" "isActive t"
    by blast
  then show ?thesis
  proof cases
    case same
    with assms show ?thesis by (simp add: atMostOneActive_def activeTimersOf_def)
  next
    case new
    have none: "activeTimersOf st userId = []"
      using new(1) by (simp add: findActiveTimer_None_filter)
    show ?thesis
      unfolding atMostOneActive_def
    proof
      fix u
      show "length (activeTimersOf ?st' u) \<le> 1"
      proof (cases "u = userId")
        case True
        with none new show ?thesis by (simp add: activeTimersOf_def)
      next
        case False
        with assms new show ?thesis by (simp add: atMostOneActive_def activeTimersOf_def)
      qed
    qed
  qed
qed

lemma completeTimer_preserves:
  assumes "atMostOneActive st"
  shows "atMostOneActive (snd (completeTimer st userId nts clk))"
proof -
  let ?st' = "snd (completeTimer st userId nts clk)"
  from timers_completeTimer [of st userId nts clk]
  consider (same) "timers ?st' = timers st"
    | (saved) t t' where "findActiveTimer st userId = Some t"
        "Timer_complete st t nts (timerNow clk) = Inr t'"
        "timers ?st' = timers (saveTimer st t t')"
    by blast
  then show ?thesis
  proof cases
    case same
    with assms show ?thesis by (simp add: atMostOneActive_def activeTimersOf_def)
  next
    case saved
    have act: "isActive t" using saved(1) by (simp add: findActiveTimer_Some)
    have inact: "\<not> isActive t'" by (simp add: Timer_complete_Inr(1) [OF saved(2)])
    show ?thesis
      unfolding atMostOneActive_def
    proof
      fix u
      have "length (activeTimersOf ?st' u) \<le> length (activeTimersOf st u)"
        unfolding activeTimersOf_def saved(3) saveTimer_def
        using length_filter_merge [OF act inact, of u "timer_id t'" "timers st"]
        by simp
      also have "\<dots> \<le> 1" using assms by (simp add: atMostOneActive_def)
      finally show "length (activeTimersOf ?st' u) \<le> 1" .
    qed
  qed
qed

lemma timers_socketTimerStart:
  "timers (snd (socketTimerStart st taskId userId now)) = timers st \<or>
   (\<exists>t. timers (snd (socketTimerStart st taskId userId now)) = timers st @ [t]
        \<and> timer_id t = newObjectId st \<and> isActive t)"
  by (auto simp: socketTimerStart_def Let_def insertTimer_def split: option.splits sum.splits)

lemma timers_socketCompleteLoaded:
  "timers (snd (socketCompleteLoaded st sockUser taskId t nts clk)) = timers st \<or>
   (\<exists>t'. Timer_complete st t nts (timerNow clk) = Inr t' \<and>
      timers (snd (socketCompleteLoaded st sockUser taskId t nts clk)) = timers (saveTimer st t t'))"
  by (auto simp: socketCompleteLoaded_def Let_def split: option.splits sum.splits)

lemma findTimer_Some: "findTimer st k = Some t \<Longrightarrow> t \<in> set (timers st) \<and> timer_id t = k"
  unfolding findTimer_def by (drule find_Some_set) simp

lemma timers_socketTimerComplete:
  "timers (snd (socketTimerComplete st sockUser taskId nts clk)) = timers st \<or>
   (\<exists>t t'. t \<in> set (timers st) \<and> isActive t \<and>
      Timer_complete st t nts (timerNow clk) = Inr t' \<and>
      timers (snd (socketTimerComplete st sockUser taskId nts clk)) = timers (saveTimer st t t'))"
proof -
  have "snd (socketTimerComplete st sockUser taskId nts clk) = st \<or>
        (\<exists>t. t \<in> set (timers st) \<and> isActive t \<and>
           socketTimerComplete st sockUser taskId nts clk =
             socketCompleteLoaded st sockUser taskId t nts clk)"
    by (auto simp: socketTimerComplete_def dest: findTimer_Some
             split: sum.splits option.splits cache_val.splits)
  then consider (none) "snd (socketTimerComplete st sockUser taskId nts clk) = st"
    | (loaded) t where "t \<in> set (timers st)" "isActive t"
        "socketTimerComplete st sockUser taskId nts clk =
           socketCompleteLoaded st sockUser taskId t nts clk"
    by blast
  then show ?thesis
  proof cases
    case none
    then show ?thesis by simp
  next
    case loaded
    with timers_socketCompleteLoaded [of st sockUser taskId t nts clk] show ?thesis
      by auto
  qed
qed

lemma timers_exec:
  "timers (exec st op) = timers st
   \<or> (\<exists>t. timers (exec st op) = timers st @ [t] \<and> timer_id t = newObjectId st \<and> isActive t)
   \<or> (\<exists>t t' nts now. t \<in> set (timers st) \<and> isActive t \<and> Timer_complete st t nts now = Inr t'
         \<and> timers (exec st op) = timers (saveTimer st t t'))"
proof (cases op)
  case (StartTimer taskId userId now)
  with timers_startTimer [of st taskId userId now] show ?thesis by auto
next
  case (CompleteTimer userId nts clk)
  from timers_completeTimer [of st userId nts clk]
  consider (same) "timers (exec st op) = timers st"
    | (saved) t t' where "findActiveTimer st userId = Some t"
        "Timer_complete st t nts (timerNow clk) = Inr t'"
        "timers (exec st op) = timers (saveTimer st t t')"
    unfolding CompleteTimer by auto
  then show ?thesis
  proof cases
    case same
    then show ?thesis by simp
  next
    case saved
    from saved(1) have "t \<in> set (timers st)" "isActive t"
      by (simp_all add: findActiveTimer_Some)
    with saved(2,3) show ?thesis by blast
  qed
next
  case (GetActiveTimer userId now)
  then show ?thesis by simp
next
  case (ListTaskTimers taskId userId pageNum limitNum)
  then show ?thesis by simp
next
  case (SocketTimerStart taskId userId now)
  with timers_socketTimerStart [of st taskId userId now] show ?thesis by auto
next
  case (SocketTimerComplete sockUser taskId nts clk)
  from timers_socketTimerComplete [of st sockUser taskId nts clk]
  consider (same) "timers (exec st op) = timers st"
    | (saved) t t' where "t \<in> set (timers st)" "isActive t"
        "Timer_complete st t nts (timerNow clk) = Inr t'"
        "timers (exec st op) = timers (saveTimer st t t')"
    unfolding SocketTimerComplete by auto
  then show ?thesis
  proof cases
    case same
    then show ?thesis by simp
  next
    case saved
    then show ?thesis by blast
  qed
qed

text \<open>
  Claim C1. The claim says that in every reachable state a user has at most one Timer
  with isActive = true. The socket handler \<open>timer:start\<close> does not look for an active
  timer, as startTimer does: in the state \<open>world1\<close>, where user 7 has the active timer
  \<open>timerA\<close> and every user has at most one, the handler answers with the new timer 2 and
  leaves user 7 with the two active timers \<open>timerA\<close> and \<open>timerA2\<close>.
\<close>

theorem socket_start_second_active_timer:
  "atMostOneActive world1
   \<and> fst (socketTimerStart world1 1 7 5000) =
        Inr \<lparr>sv_id = 2, sv_task_id = 1, sv_dueDate = 3600000, sv_startTime = 5000,
              sv_isActive = True\<rparr>
   \<and> activeTimersOf (snd (socketTimerStart world1 1 7 5000)) 7 = [timerA, timerA2]
   \<and> \<not> atMostOneActive (snd (socketTimerStart world1 1 7 5000))"
proof -
  have a: "atMostOneActive world1"
    by (simp add: atMostOneActive_def activeTimersOf_def world1_def)
  have b: "fst (socketTimerStart world1 1 7 5000) =
        Inr \<lparr>sv_id = 2, sv_task_id = 1, sv_dueDate = 3600000, sv_startTime = 5000,
              sv_isActive = True\<rparr>"
    by (simp add: socketTimerStart_def service_defs world_defs)
  have c: "activeTimersOf (snd (socketTimerStart world1 1 7 5000)) 7 = [timerA, timerA2]"
    by (simp add: socketTimerStart_def activeTimersOf_def service_defs world_defs timerA2_def)
  have "\<not> length (activeTimersOf (snd (socketTimerStart world1 1 7 5000)) 7) \<le> 1"
    unfolding c by simp
  then have d: "\<not> atMostOneActive (snd (socketTimerStart world1 1 7 5000))"
    unfolding atMostOneActive_def by blast
  from a b c d show ?thesis by blast
qed

section \<open>Completion: duration, statistics and the task record\<close>

lemma js_round_nearest: "\<bar>of_int (js_round x) - x\<bar> \<le> 1 / 2"
proof -
  have "of_int \<lfloor>x + 1 / 2\<rfloor> \<le> x + 1 / 2" by (rule of_int_floor_le)
  moreover have "x + 1 / 2 < of_int \<lfloor>x + 1 / 2\<rfloor> + 1" by linarith
  ultimately show ?thesis unfolding js_round_def by linarith
qed

lemma js_round_nonneg: "0 \<le> x \<Longrightarrow> 0 \<le> js_round x"
  by (simp add: js_round_def)

lemma js_round_minutes: "js_round (of_int d / (1000 * 60)) = (d + 30000) div 60000"
proof -
  have "(of_int d :: rat) / (1000 * 60) + 1 / 2 = of_int (d + 30000) / of_int 60000"
    by (simp add: field_simps)
  then show ?thesis
    unfolding js_round_def by (simp only: floor_divide_of_int_eq)
qed

lemma timers_completeTimer_Some:
  assumes "findActiveTimer st userId = Some t" and "findTask st (task t) = Some tk"
      and "Timer_complete st t nts (timerNow clk) = Inr t'"
  shows "timers (snd (completeTimer st userId nts clk)) = timers (saveTimer st t t')"
  using assms
  by (auto simp: completeTimer_def completeLoaded_def Let_def split: option.splits sum.splits)

lemma saved_timer_mem:
  assumes "t \<in> set (timers st)" and "Timer_complete st t nts now = Inr t'"
  shows "t' \<in> set (timers (saveTimer st t t'))"
proof -
  have "(\<lambda>d. if timer_id d = timer_id t' then mergeTimer d t t' else d) t = t'"
    by (simp add: Timer_complete_Inr(5) [OF assms(2)] mergeTimer_same [OF assms(2)])
  with assms(1) have "t' \<in> (\<lambda>d. if timer_id d = timer_id t' then mergeTimer d t t' else d) ` set (timers st)"
    by (intro image_eqI [where x = t]) simp_all
  then show ?thesis by (simp add: saveTimer_def)
qed

lemma completed_timer_persisted:
  assumes "findActiveTimer st userId = Some t" and "findTask st (task t) = Some tk"
      and "Timer_complete st t nts (timerNow clk) = Inr t'"
  shows "t' \<in> set (timers (snd (completeTimer st userId nts clk)))"
proof -
  from assms(1) have "t \<in> set (timers st)" by (simp add: findActiveTimer_Some)
  then show ?thesis
    unfolding timers_completeTimer_Some [OF assms] using assms(3) by (rule saved_timer_mem)
qed

lemma duration_Timer_complete:
  "Timer_complete st t nts now = Inr t' \<Longrightarrow>
   duration t' = js_round (of_int (now - startTime t) / (1000 * 60))"
  by (auto simp: Timer_complete_def calculateDuration_def Let_def split: option.splits if_splits)

lemma completedOnTime_Timer_complete:
  "findTask st (task t) = Some tk \<Longrightarrow> Timer_complete st t nts now = Inr t' \<Longrightarrow>
   completedOnTime t' = (now \<le> dueDate tk)"
  by (auto simp: Timer_complete_def Let_def split: if_splits)

text \<open>
  Claim C4. When the active timer of a user is completed at an instant not before its
  start (with notes of at most 500 characters: longer notes fail the validation of the
  save, and nothing is completed), the persisted duration is Math.round of the elapsed
  milliseconds over 60000: a non-negative integer within half a minute of the exact
  quotient. getActiveTimer at the same instant reports the same number.
\<close>

theorem duration_rounds_to_nearest_minute:
  assumes "findActiveTimer st userId = Some t"
      and "findTask st (task t) = Some tk"
      and "length nts \<le> 500"
      and "endTime t = None"
      and "startTime t \<le> timerNow clk"
  shows "\<exists>t'\<in>set (timers (snd (completeTimer st userId nts clk))).
           timer_id t' = timer_id t
         \<and> duration t' = js_round (of_int (timerNow clk - startTime t) / 60000)
         \<and> duration t' = (timerNow clk - startTime t + 30000) div 60000
         \<and> 0 \<le> duration t'
         \<and> \<bar>of_int (duration t') - of_int (timerNow clk - startTime t) / 60000\<bar> \<le> (1 / 2 :: rat)
         \<and> map_option av_duration (getActiveTimer st userId (timerNow clk)) = Some (duration t')"
proof -
  from assms(3) obtain t' where t': "Timer_complete st t nts (timerNow clk) = Inr t'"
    using Timer_complete_valid by blast
  let ?x = "of_int (timerNow clk - startTime t) / 60000 :: rat"
  have mem: "t' \<in> set (timers (snd (completeTimer st userId nts clk)))"
    using assms(1,2) t' by (rule completed_timer_persisted)
  have i: "timer_id t' = timer_id t" by (rule Timer_complete_Inr(5) [OF t'])
  have d: "duration t' = js_round ?x" by (simp add: duration_Timer_complete [OF t'])
  have dv: "duration t' = (timerNow clk - startTime t + 30000) div 60000"
    by (simp only: duration_Timer_complete [OF t'] js_round_minutes)
  have "0 \<le> ?x" using assms(5) by simp
  then have nn: "0 \<le> duration t'" unfolding d by (rule js_round_nonneg)
  have near: "\<bar>of_int (duration t') - ?x\<bar> \<le> 1 / 2" unfolding d by (rule js_round_nearest)
  have live: "map_option av_duration (getActiveTimer st userId (timerNow clk)) = Some (duration t')"
    using assms(1,4) by (simp add: getActiveTimer_def calculateDuration_def d)
  from mem i d dv nn near live show ?thesis by (intro bexI [of _ t']) simp_all
qed

text \<open>
  The theorem of claim C4 at a concrete state.
\<close>

theorem duration_rounds_to_nearest_minute_witness:
  "findActiveTimer world1 7 = Some timerA \<and> length ''reviewed'' \<le> 500 \<and> endTime timerA = None
   \<and> startTime timerA \<le> timerNow ninetySeconds
   \<and> (\<exists>t'\<in>set (timers (snd (completeTimer world1 7 ''reviewed'' ninetySeconds))).
         timer_id t' = 1 \<and> duration t' = 2
       \<and> map_option av_duration (getActiveTimer world1 7 90000) = Some 2)"
proof -
  have a: "findActiveTimer world1 7 = Some timerA" by (simp add: service_defs world_defs)
  have b: "findTask world1 (task timerA) = Some (taskX\<lparr>activeTimers := 1, totalTimers := 1, status := InProgress\<rparr>)"
    by (simp add: service_defs world_defs)
  have n: "length ''reviewed'' \<le> 500" by simp
  have c: "endTime timerA = None" by (simp add: timerA_def)
  have d: "startTime timerA \<le> timerNow ninetySeconds" by (simp add: timerA_def ninetySeconds_def)
  have e: "js_round (of_int (timerNow ninetySeconds - startTime timerA) / 60000) = 2"
    by (simp add: js_round_def timerA_def ninetySeconds_def)
  have f: "timer_id timerA = 1" "timerNow ninetySeconds = 90000"
    by (simp_all add: timerA_def ninetySeconds_def)
  from duration_rounds_to_nearest_minute [OF a b n c d]
  obtain t' where m: "t' \<in> set (timers (snd (completeTimer world1 7 ''reviewed'' ninetySeconds)))"
    and i: "timer_id t' = timer_id timerA"
    and du: "duration t' = js_round (of_int (timerNow ninetySeconds - startTime timerA) / 60000)"
    and live: "map_option av_duration (getActiveTimer world1 7 (timerNow ninetySeconds)) = Some (duration t')"
    by blast
  from du have du2: "duration t' = 2" by (simp only: e)
  from i have i1: "timer_id t' = 1" by (simp only: f)
  from live have "map_option av_duration (getActiveTimer world1 7 90000) = Some 2"
    by (simp only: f du2)
  with m i1 du2 have "\<exists>t'\<in>set (timers (snd (completeTimer world1 7 ''reviewed'' ninetySeconds))).
         timer_id t' = 1 \<and> duration t' = 2
       \<and> map_option av_duration (getActiveTimer world1 7 90000) = Some 2"
    by blast
  with a n c d show ?thesis by blast
qed

lemma find_replace_mem:
  assumes "find (\<lambda>d. f d = k) xs = Some x" and "f x' = f x"
  shows "x' \<in> set (map (\<lambda>d. if f d = f x' then x' else d) xs)"
proof -
  from assms(1) have "x \<in> set xs" by (simp add: find_Some_set)
  then have "(\<lambda>d. if f d = f x' then x' else d) x \<in> set (map (\<lambda>d. if f d = f x' then x' else d) xs)"
    by (simp only: set_map) (rule imageI)
  with assms(2) show ?thesis by simp
qed

lemma tasks_saveTimer [simp]: "tasks (saveTimer st l t) = tasks st"
  by (simp add: saveTimer_def)
lemma tasks_saveUser [simp]: "tasks (saveUser st u) = tasks st"
  by (simp add: saveUser_def)
lemma tasks_saveGroup [simp]: "tasks (saveGroup st g) = tasks st"
  by (simp add: saveGroup_def)

lemma markAsCompleted_id [simp]: "task_id (markAsCompleted tk userId d now) = task_id tk"
  by (simp add: markAsCompleted_def Let_def)

lemma tasks_completeLoaded_Some:
  assumes "findTask st (task t) = Some tk"
      and "Timer_complete st t nts (timerNow clk) = Inr t'"
  shows "tasks (snd (completeLoaded st userId t nts clk)) =
         tasks (saveTask st (markAsCompleted tk userId (duration t') (taskNow clk)))"
  using assms
  by (auto simp: completeLoaded_def Let_def saveTask_def split: option.splits sum.splits)

lemma timers_completeLoaded_Some:
  assumes "findTask st (task t) = Some tk"
      and "Timer_complete st t nts (timerNow clk) = Inr t'"
  shows "timers (snd (completeLoaded st userId t nts clk)) = timers (saveTimer st t t')"
  using assms
  by (auto simp: completeLoaded_def Let_def split: option.splits sum.splits)

lemma task_completion_persisted:
  assumes "findActiveTimer st userId = Some t" and "findTask st (task t) = Some tk"
      and "length nts \<le> 500"
  shows "markAsCompleted tk userId ((timerNow clk - startTime t + 30000) div 60000) (taskNow clk)
         \<in> set (tasks (snd (completeTimer st userId nts clk)))"
proof -
  from assms(3) obtain t' where t': "Timer_complete st t nts (timerNow clk) = Inr t'"
    using Timer_complete_valid by blast
  have dv: "duration t' = (timerNow clk - startTime t + 30000) div 60000"
    by (simp only: duration_Timer_complete [OF t'] js_round_minutes)
  have "tasks (snd (completeTimer st userId nts clk)) =
        tasks (saveTask st (markAsCompleted tk userId (duration t') (taskNow clk)))"
    using tasks_completeLoaded_Some [OF assms(2) t'] assms(1) by (simp add: completeTimer_def)
  then show ?thesis
    unfolding dv saveTask_def
    using find_replace_mem [of task_id "task t" "tasks st" tk
          "markAsCompleted tk userId ((timerNow clk - startTime t + 30000) div 60000) (taskNow clk)"]
        assms(2)
    by (simp add: findTask_def)
qed

text \<open>
  Claim C7. markAsCompleted appends a completedBy entry; the status becomes completed;
  completedAt is set to now exactly when the task was not completed before and is kept
  otherwise; activeTimers becomes max(0, activeTimers - 1). completeTimer, when the
  notes pass the validation of the Timer, saves the task so marked.
\<close>

theorem markAsCompleted_records_completion:
  "(let tk' = markAsCompleted tk userId timeSpent now
    in completedBy tk' = completedBy tk @
         [\<lparr>c_user = userId, c_completedAt = now, c_timeSpent = timeSpent,
           c_completedOnTime = (now \<le> dueDate tk)\<rparr>]
     \<and> status tk' = Completed
     \<and> (status tk \<noteq> Completed \<longrightarrow> completedAt tk' = Some now)
     \<and> (status tk = Completed \<longrightarrow> completedAt tk' = completedAt tk)
     \<and> activeTimers tk' = max 0 (activeTimers tk - 1))
   \<and> (findActiveTimer st userId = Some t \<and> findTask st (task t) = Some tk \<and> length nts \<le> 500 \<longrightarrow>
        markAsCompleted tk userId ((timerNow clk - startTime t + 30000) div 60000) (taskNow clk)
          \<in> set (tasks (snd (completeTimer st userId nts clk))))"
  using task_completion_persisted [of st userId t tk nts clk]
  by (simp add: markAsCompleted_def Let_def)

text \<open>
  The theorem of claim C7 at concrete states: a first completion through completeTimer,
  and a second completion of the completed task by another user.
\<close>

theorem markAsCompleted_records_completion_witness:
  "findActiveTimer world1 7 = Some timerA
   \<and> findTask world1 (task timerA) =
        Some (taskX\<lparr>activeTimers := 1, totalTimers := 1, status := InProgress\<rparr>)
   \<and> length ''tested'' \<le> 500
   \<and> taskX_done \<in> set (tasks (snd (completeTimer world1 7 ''tested'' tenMinutes)))
   \<and> status taskDone = Completed
   \<and> completedBy (markAsCompleted taskDone 8 3 4000000) =
       [\<lparr>c_user = 7, c_completedAt = 600001, c_timeSpent = 10, c_completedOnTime = True\<rparr>,
        \<lparr>c_user = 8, c_completedAt = 4000000, c_timeSpent = 3, c_completedOnTime = False\<rparr>]
   \<and> status (markAsCompleted taskDone 8 3 4000000) = Completed
   \<and> completedAt (markAsCompleted taskDone 8 3 4000000) = Some 600001
   \<and> activeTimers (markAsCompleted taskDone 8 3 4000000) = 0"
proof -
  let ?tk = "taskX\<lparr>activeTimers := 1, totalTimers := 1, status := InProgress\<rparr>"
  have a: "findActiveTimer world1 7 = Some timerA" by (simp add: service_defs world_defs)
  have b: "findTask world1 (task timerA) = Some ?tk" by (simp add: service_defs world_defs)
  have n: "length ''tested'' \<le> 500" by simp
  have m: "markAsCompleted ?tk 7 ((timerNow tenMinutes - startTime timerA + 30000) div 60000)
             (taskNow tenMinutes) = taskX_done"
    by (simp add: markAsCompleted_def taskX_def taskX_done_def tenMinutes_def timerA_def Let_def)
  from markAsCompleted_records_completion [of ?tk 7 10 600001 world1 timerA "''tested''" tenMinutes]
       a b n
  have "markAsCompleted ?tk 7 ((timerNow tenMinutes - startTime timerA + 30000) div 60000)
          (taskNow tenMinutes) \<in> set (tasks (snd (completeTimer world1 7 ''tested'' tenMinutes)))"
    by blast
  then have p: "taskX_done \<in> set (tasks (snd (completeTimer world1 7 ''tested'' tenMinutes)))"
    by (simp only: m)
  have s: "status taskDone = Completed" by (simp add: taskDone_def)
  from markAsCompleted_records_completion [of taskDone 8 3 4000000 world1 timerA "''tested''" tenMinutes]
  have "completedBy (markAsCompleted taskDone 8 3 4000000) = completedBy taskDone @
         [\<lparr>c_user = 8, c_completedAt = 4000000, c_timeSpent = 3,
           c_completedOnTime = (4000000 \<le> dueDate taskDone)\<rparr>]"
    and "status (markAsCompleted taskDone 8 3 4000000) = Completed"
    and "completedAt (markAsCompleted taskDone 8 3 4000000) = completedAt taskDone"
    and "activeTimers (markAsCompleted taskDone 8 3 4000000) = max 0 (activeTimers taskDone - 1)"
    using s by (simp_all add: Let_def)
  then have q: "completedBy (markAsCompleted taskDone 8 3 4000000) =
       [\<lparr>c_user = 7, c_completedAt = 600001, c_timeSpent = 10, c_completedOnTime = True\<rparr>,
        \<lparr>c_user = 8, c_completedAt = 4000000, c_timeSpent = 3, c_completedOnTime = False\<rparr>]"
    "status (markAsCompleted taskDone 8 3 4000000) = Completed"
    "completedAt (markAsCompleted taskDone 8 3 4000000) = Some 600001"
    "activeTimers (markAsCompleted taskDone 8 3 4000000) = 0"
    by (simp_all add: taskDone_def)
  from a b n p s q show ?thesis by blast
qed

lemma fold_max_ge: "x \<in> set xs \<Longrightarrow> (x::nat) \<le> fold max xs a"
proof (induction xs arbitrary: a)
  case Nil
  then show ?case by simp
next
  case (Cons y ys)
  have mono: "a \<le> fold max ys a" for a :: nat
  proof (induction ys arbitrary: a)
    case Nil
    show ?case by simp
  next
    case (Cons z zs)
    have "a \<le> max z a" by simp
    also have "\<dots> \<le> fold max zs (max z a)" by (rule Cons)
    finally show ?case by simp
  qed
  show ?case
  proof (cases "x = y")
    case True
    have "x \<le> max x a" by simp
    also have "\<dots> \<le> fold max ys (max x a)" by (rule mono)
    finally show ?thesis using True by simp
  next
    case False
    with Cons show ?thesis by simp
  qed
qed

lemma newObjectId_fresh: "newObjectId st \<notin> set (map timer_id (timers st))"
proof
  assume "newObjectId st \<in> set (map timer_id (timers st))"
  then have "newObjectId st \<le> fold max (map timer_id (timers st)) 0" by (rule fold_max_ge)
  then show False by (simp add: newObjectId_def)
qed

lemma map_timer_id_saveTimer:
  "map timer_id (timers (saveTimer st l t)) = map timer_id (timers st)"
  by (simp add: saveTimer_def comp_def if_distrib [of timer_id] cong: if_cong)

lemma exec_uniqueTimerIds:
  assumes "uniqueTimerIds st"
  shows "uniqueTimerIds (exec st op)"
proof -
  from timers_exec [of st op]
  consider (same) "timers (exec st op) = timers st"
    | (new) t where "timers (exec st op) = timers st @ [t]" "timer_id t = newObjectId st"
    | (saved) l t where "timers (exec st op) = timers (saveTimer st l t)"
    by blast
  then show ?thesis
  proof cases
    case same
    with assms show ?thesis by (simp add: uniqueTimerIds_def)
  next
    case new
    with assms newObjectId_fresh [of st] show ?thesis by (simp add: uniqueTimerIds_def)
  next
    case saved
    with assms show ?thesis by (simp add: uniqueTimerIds_def map_timer_id_saveTimer)
  qed
qed

lemma distinct_map_eq:
  "distinct (map f xs) \<Longrightarrow> x \<in> set xs \<Longrightarrow> y \<in> set xs \<Longrightarrow> f x = f y \<Longrightarrow> x = y"
  by (meson distinct_map inj_on_def)

lemma exec_keeps_inactive:
  assumes u: "uniqueTimerIds st" and m: "c \<in> set (timers st)" and i: "\<not> isActive c"
  shows "c \<in> set (timers (exec st op))"
proof -
  from timers_exec [of st op]
  consider (same) "timers (exec st op) = timers st"
    | (new) t where "timers (exec st op) = timers st @ [t]"
    | (saved) l t nts now where "l \<in> set (timers st)" "isActive l"
        "Timer_complete st l nts now = Inr t" "timers (exec st op) = timers (saveTimer st l t)"
    by blast
  then show ?thesis
  proof cases
    case same
    with m show ?thesis by simp
  next
    case new
    with m show ?thesis by simp
  next
    case saved
    from saved(2) i have "c \<noteq> l" by auto
    with u m saved(1) have "timer_id c \<noteq> timer_id l"
      unfolding uniqueTimerIds_def by (auto dest: distinct_map_eq)
    then have "timer_id c \<noteq> timer_id t" by (simp add: Timer_complete_Inr(5) [OF saved(3)])
    then have "(\<lambda>d. if timer_id d = timer_id t then mergeTimer d l t else d) c = c"
      by simp
    with m have "c \<in> (\<lambda>d. if timer_id d = timer_id t then mergeTimer d l t else d) ` set (timers st)"
      by (intro image_eqI [where x = c]) simp_all
    then show ?thesis by (simp add: saved(4) saveTimer_def)
  qed
qed

lemma later_keeps_completed:
  assumes "later st st'"
  shows "uniqueTimerIds st \<Longrightarrow> c \<in> set (timers st) \<Longrightarrow> \<not> isActive c \<Longrightarrow>
         uniqueTimerIds st' \<and> c \<in> set (timers st')"
  using assms
proof (induction rule: later.induct)
  case (refl st)
  then show ?case by simp
next
  case (other st st' st'')
  then show ?case by (simp add: uniqueTimerIds_def)
next
  case (timer_op st st' op)
  then show ?case by (simp add: exec_uniqueTimerIds exec_keeps_inactive)
qed

text \<open>
  Claim C5, for requests that run one after another. completeTimer, when the notes pass
  the validation, persists completedOnTime = (endTime <= dueDate) with the due date the
  task has at that moment, and no later request of the timer service or of the socket
  handlers, nor any change to tasks, users, groups or cache, touches the completed Timer
  document.
\<close>

theorem completedOnTime_fixed_at_completion:
  assumes "uniqueTimerIds st"
      and "findActiveTimer st userId = Some t"
      and "findTask st (task t) = Some tk"
      and "length nts \<le> 500"
      and "later (snd (completeTimer st userId nts clk)) st'"
  shows "\<exists>t'. t' \<in> set (timers (snd (completeTimer st userId nts clk)))
           \<and> timer_id t' = timer_id t \<and> isCompleted t'
           \<and> endTime t' = Some (timerNow clk)
           \<and> completedOnTime t' = (timerNow clk \<le> dueDate tk)
           \<and> (\<forall>x\<in>set (timers st'). timer_id x = timer_id t \<longleftrightarrow> x = t')"
proof -
  from assms(4) obtain t' where t': "Timer_complete st t nts (timerNow clk) = Inr t'"
    using Timer_complete_valid by blast
  note f = Timer_complete_Inr [OF t']
  let ?st1 = "snd (completeTimer st userId nts clk)"
  have mem: "t' \<in> set (timers ?st1)"
    using assms(2,3) t' by (rule completed_timer_persisted)
  have "?st1 = exec st (CompleteTimer userId nts clk)" by simp
  then have u1: "uniqueTimerIds ?st1" using assms(1) by (simp only: exec_uniqueTimerIds)
  have inact: "\<not> isActive t'" by (simp add: f(1))
  from later_keeps_completed [OF assms(5) u1 mem inact]
  have u': "uniqueTimerIds st'" and mem': "t' \<in> set (timers st')" by simp_all
  have only: "\<forall>x\<in>set (timers st'). timer_id x = timer_id t \<longleftrightarrow> x = t'"
  proof
    fix x assume x: "x \<in> set (timers st')"
    show "timer_id x = timer_id t \<longleftrightarrow> x = t'"
    proof
      assume "timer_id x = timer_id t"
      then have "timer_id x = timer_id t'" by (simp add: f(5))
      with u' x mem' show "x = t'"
        unfolding uniqueTimerIds_def by (auto dest: distinct_map_eq)
    next
      assume "x = t'"
      then show "timer_id x = timer_id t" by (simp add: f(5))
    qed
  qed
  from mem only completedOnTime_Timer_complete [OF assms(3) t'] f(2,5,7)
  show ?thesis by (intro exI [of _ t']) simp
qed

text \<open>
  The theorem of claim C5 at a concrete state, the due date being moved afterwards.
\<close>

theorem completedOnTime_fixed_at_completion_witness:
  "uniqueTimerIds world1 \<and> findActiveTimer world1 7 = Some timerA \<and> length ([] :: string) \<le> 500
   \<and> later (snd (completeTimer world1 7 [] tenMinutes)) dueDateMoved
   \<and> (\<exists>t'. t' \<in> set (timers (snd (completeTimer world1 7 [] tenMinutes)))
         \<and> timer_id t' = 1 \<and> endTime t' = Some 600000 \<and> completedOnTime t'
         \<and> (\<forall>x\<in>set (timers dueDateMoved). timer_id x = 1 \<longleftrightarrow> x = t'))"
proof -
  let ?tk = "taskX\<lparr>activeTimers := 1, totalTimers := 1, status := InProgress\<rparr>"
  have u: "uniqueTimerIds world1" by (simp add: uniqueTimerIds_def world1_def)
  have a: "findActiveTimer world1 7 = Some timerA" by (simp add: service_defs world_defs)
  have b: "findTask world1 (task timerA) = Some ?tk" by (simp add: service_defs world_defs)
  have n: "length ([] :: string) \<le> 500" by simp
  have s: "later (snd (completeTimer world1 7 [] tenMinutes)) dueDateMoved"
    by (rule later.other [OF later.refl]) (simp add: dueDateMoved_def)
  from completedOnTime_fixed_at_completion [OF u a b n s]
  obtain t' where m: "t' \<in> set (timers (snd (completeTimer world1 7 [] tenMinutes)))"
    and i: "timer_id t' = timer_id timerA"
    and e: "endTime t' = Some (timerNow tenMinutes)"
    and c: "completedOnTime t' = (timerNow tenMinutes \<le> dueDate ?tk)"
    and o: "\<forall>x\<in>set (timers dueDateMoved). timer_id x = timer_id timerA \<longleftrightarrow> x = t'"
    by blast
  from i have i1: "timer_id t' = 1" by (simp add: timerA_def)
  from e have e1: "endTime t' = Some 600000" by (simp add: tenMinutes_def)
  from c have c1: "completedOnTime t'" by (simp add: tenMinutes_def taskX_def)
  from o have o1: "\<forall>x\<in>set (timers dueDateMoved). timer_id x = 1 \<longleftrightarrow> x = t'"
    by (simp add: timerA_def)
  from m i1 e1 c1 o1
  have "\<exists>t'. t' \<in> set (timers (snd (completeTimer world1 7 [] tenMinutes)))
         \<and> timer_id t' = 1 \<and> endTime t' = Some 600000 \<and> completedOnTime t'
         \<and> (\<forall>x\<in>set (timers dueDateMoved). timer_id x = 1 \<longleftrightarrow> x = t')"
    by blast
  with u a n s show ?thesis by blast
qed

lemma tight_active: "findActiveTimer tightWorld 7 = Some timerA"
  by (simp add: tightWorld_def findActiveTimer_def world1_def timerA_def)

lemma tight_task: "findTask tightWorld (task timerA) =
    Some (taskX\<lparr>dueDate := 600500, activeTimers := 1, totalTimers := 1, status := InProgress\<rparr>)"
  by (simp add: tightWorld_def findTask_def timerA_def taskX_def)

lemma tight_complete1: "\<exists>t'. Timer_complete tightWorld timerA [] (timerNow tenMinutes) = Inr t'"
  by (rule Timer_complete_valid) simp

text \<open>
  Claim C5 fails when two completeTimer requests of one user overlap. Both load
  \<open>timerA\<close> while it is active. The first completes it at 600000, on time for the due
  date 600500. The second then saves its own completion at 601000, after the due date:
  the save writes the paths that changed on its copy, and completedOnTime = false is
  what that copy held already. The stored document ends with endTime 601000 and
  completedOnTime true.
\<close>

theorem overlapping_completions_stale_completedOnTime:
  "findActiveTimer tightWorld 7 = Some timerA
   \<and> map dueDate (tasks tightWorld) = [600500]
   \<and> map endTime (timers (snd (completeTimer tightWorld 7 [] tenMinutes))) = [Some 600000]
   \<and> map completedOnTime (timers (snd (completeTimer tightWorld 7 [] tenMinutes))) = [True]
   \<and> map dueDate (tasks overlapped) = [600500]
   \<and> map endTime (timers overlapped) = [Some 601000]
   \<and> map completedOnTime (timers overlapped) = [True]
   \<and> \<not> (601000 :: int) \<le> 600500"
proof -
  let ?tk = "taskX\<lparr>dueDate := 600500, activeTimers := 1, totalTimers := 1, status := InProgress\<rparr>"
  let ?st1 = "snd (completeTimer tightWorld 7 [] tenMinutes)"
  obtain t1 where t1: "Timer_complete tightWorld timerA [] (timerNow tenMinutes) = Inr t1"
    using tight_complete1 by blast
  have c1: "completedOnTime t1"
    using completedOnTime_Timer_complete [OF tight_task t1] by (simp add: tenMinutes_def)
  note f1 = Timer_complete_Inr [OF t1]
  have tm1: "timers ?st1 = [t1]"
    unfolding timers_completeTimer_Some [OF tight_active tight_task t1]
    by (simp add: saveTimer_def tightWorld_def world1_def f1(5) mergeTimer_same [OF t1])
  have tk1: "tasks ?st1 = [markAsCompleted ?tk 7 (duration t1) (taskNow tenMinutes)]"
    unfolding completeTimer_def tight_active option.case
      tasks_completeLoaded_Some [OF tight_task t1]
    by (simp add: saveTask_def tightWorld_def taskX_def)
  have ft: "findTask ?st1 (task timerA) = Some (markAsCompleted ?tk 7 (duration t1) (taskNow tenMinutes))"
    by (simp add: findTask_def tk1 timerA_def taskX_def)
  obtain t2 where t2: "Timer_complete ?st1 timerA [] (timerNow afterDue) = Inr t2"
    using Timer_complete_valid [of "[]" ?st1 timerA "timerNow afterDue"] by auto
  have c2: "\<not> completedOnTime t2"
    using completedOnTime_Timer_complete [OF ft t2]
    by (simp add: afterDue_def markAsCompleted_def Let_def)
  note f2 = Timer_complete_Inr [OF t2]
  have tm2: "timers overlapped = [mergeTimer t1 timerA t2]"
    unfolding overlapped_def timers_completeLoaded_Some [OF ft t2]
    by (simp add: saveTimer_def tm1 f1(5) f2(5))
  have tk2: "map dueDate (tasks overlapped) = [600500]"
    unfolding overlapped_def tasks_completeLoaded_Some [OF ft t2]
    by (simp add: saveTask_def tk1 markAsCompleted_def Let_def taskX_def)
  have e2: "endTime (mergeTimer t1 timerA t2) = Some 601000"
    by (simp add: mergeTimer_def f2(7) timerA_def afterDue_def)
  have o2: "completedOnTime (mergeTimer t1 timerA t2)"
    using c1 c2 by (simp add: mergeTimer_def timerA_def)
  have d0: "map dueDate (tasks tightWorld) = [600500]"
    by (simp add: tightWorld_def)
  have e1: "endTime t1 = Some 600000"
    by (simp add: f1(7) tenMinutes_def)
  show ?thesis
    unfolding tm1 tm2 using tight_active d0 tk2 c1 e1 e2 o2 by simp
qed

section \<open>User statistics in double arithmetic\<close>

lemma pow2_powi: "pow2 e = 2 powi e"
  by (simp add: pow2_def power_int_def power_one_over)

lemma pow2_pos: "0 < pow2 e"
  by (simp add: pow2_powi)

lemma pow2_add: "pow2 (a + b) = pow2 a * pow2 b"
  by (simp add: pow2_powi power_int_add)

lemma pow2_mono: "a \<le> b \<Longrightarrow> pow2 a \<le> pow2 b"
  by (simp add: pow2_powi power_int_increasing)

lemma pow2_nat: "pow2 (int n) = 2 ^ n"
  by (simp add: pow2_def)

lemma binaryExponent_le:
  assumes "x \<noteq> 0"
  shows "pow2 (binaryExponent x) \<le> \<bar>x\<bar>"
proof -
  obtain p q where pq: "quotient_of \<bar>x\<bar> = (p, q)" by (cases "quotient_of \<bar>x\<bar>")
  then have q: "0 < q" by (rule quotient_of_denom_pos)
  from pq have x: "\<bar>x\<bar> = of_int p / of_int q" by (rule quotient_of_div)
  from assms have "0 < \<bar>x\<bar>" by simp
  with x q have p: "0 < p" by (simp add: zero_less_divide_iff)
  let ?e0 = "bitlen p - bitlen q"
  have be: "binaryExponent x = (if pow2 ?e0 \<le> \<bar>x\<bar> then ?e0 else ?e0 - 1)"
    by (simp add: binaryExponent_def pq Let_def)
  show ?thesis
  proof (cases "pow2 ?e0 \<le> \<bar>x\<bar>")
    case True
    with be show ?thesis by simp
  next
    case False
    from bitlen_bounds [OF p] have lo: "(2::int) ^ nat (bitlen p - 1) \<le> p" by simp
    from bitlen_bounds [OF q] have hi: "q < (2::int) ^ nat (bitlen q)" by simp
    have bp: "0 < bitlen p"
      using p bitlen_nonneg [of "p div 2"] by (subst compute_bitlen) simp
    have bq: "0 \<le> bitlen q" by (rule bitlen_nonneg)
    from lo have lo': "pow2 (bitlen p - 1) \<le> of_int p"
    proof -
      have "pow2 (bitlen p - 1) = of_int (2 ^ nat (bitlen p - 1))"
        using bp by (simp add: pow2_def)
      also have "\<dots> \<le> of_int p" using lo by (simp only: of_int_le_iff)
      finally show ?thesis .
    qed
    from hi have hi': "of_int q \<le> pow2 (bitlen q)"
    proof -
      have "(of_int q :: rat) \<le> of_int (2 ^ nat (bitlen q))"
        using hi by (simp only: of_int_le_iff less_imp_le)
      also have "\<dots> = pow2 (bitlen q)" using bq by (simp add: pow2_def)
      finally show ?thesis .
    qed
    have "pow2 (?e0 - 1) * pow2 (bitlen q) = pow2 (bitlen p - 1)"
      by (simp add: pow2_add [symmetric])
    then have "pow2 (?e0 - 1) * of_int q \<le> pow2 (bitlen p - 1)"
      using hi' pow2_pos [of "?e0 - 1"]
      by (metis mult_left_mono less_imp_le)
    with lo' have "pow2 (?e0 - 1) * of_int q \<le> of_int p" by simp
    with q have "pow2 (?e0 - 1) \<le> of_int p / of_int q"
      by (simp add: pos_le_divide_eq)
    with x be False show ?thesis by simp
  qed
qed

lemma roundHalfEven_near: "\<bar>of_int (roundHalfEven m) - m\<bar> \<le> 1 / 2"
proof -
  have "of_int \<lfloor>m\<rfloor> \<le> m" "m < of_int \<lfloor>m\<rfloor> + 1" by linarith+
  then show ?thesis
    by (auto simp: roundHalfEven_def Let_def)
qed

lemma roundHalfEven_nonneg: "0 \<le> m \<Longrightarrow> 0 \<le> roundHalfEven m"
  by (auto simp: roundHalfEven_def Let_def)

lemma double_nonneg: "0 \<le> x \<Longrightarrow> 0 \<le> double x"
proof -
  assume x: "0 \<le> x"
  have "0 \<le> x / pow2 e" for e using x pow2_pos [of e] by simp
  then have "0 \<le> roundHalfEven (x / pow2 e)" for e by (rule roundHalfEven_nonneg)
  then show ?thesis
    using pow2_pos by (simp add: double_def Let_def less_imp_le)
qed

lemma double_error: "\<bar>double x - x\<bar> \<le> \<bar>x\<bar> / 2 ^ 53 + pow2 (- 1075)"
proof (cases "x = 0")
  case True
  then show ?thesis using pow2_pos [of "- 1075"] by (simp add: double_def)
next
  case False
  define e where "e = max (binaryExponent x) (- 1022)"
  define ulp where "ulp = pow2 (e - 52)"
  have ulp: "0 < ulp" by (simp add: ulp_def pow2_pos)
  have d: "double x = of_int (roundHalfEven (x / ulp)) * ulp"
    using False by (simp add: double_def Let_def e_def ulp_def)
  have "double x - x = (of_int (roundHalfEven (x / ulp)) - x / ulp) * ulp"
    using ulp by (simp add: d algebra_simps)
  then have "\<bar>double x - x\<bar> = \<bar>of_int (roundHalfEven (x / ulp)) - x / ulp\<bar> * ulp"
    using ulp by (simp add: abs_mult)
  also have "\<dots> \<le> 1 / 2 * ulp"
    using roundHalfEven_near [of "x / ulp"] ulp by (intro mult_right_mono) simp_all
  also have "\<dots> = pow2 (e - 53)"
  proof -
    have "pow2 (e - 52) = pow2 (e - 53) * pow2 1" by (simp add: pow2_add [symmetric])
    then show ?thesis by (simp add: ulp_def pow2_def)
  qed
  finally have b: "\<bar>double x - x\<bar> \<le> pow2 (e - 53)" .
  show ?thesis
  proof (cases "- 1022 \<le> binaryExponent x")
    case True
    then have "e = binaryExponent x" by (simp add: e_def)
    then have "pow2 (e - 53) * 2 ^ 53 = pow2 (binaryExponent x)"
      using pow2_add [of "e - 53" 53] pow2_nat [of 53] by simp
    also have "\<dots> \<le> \<bar>x\<bar>" using False by (rule binaryExponent_le)
    finally have "pow2 (e - 53) \<le> \<bar>x\<bar> / 2 ^ 53" by (simp add: pos_le_divide_eq)
    with b pow2_pos [of "- 1075"] show ?thesis by linarith
  next
    case False
    then have "e = - 1022" by (simp add: e_def)
    then have "pow2 (e - 53) = pow2 (- 1075)" by simp
    with b show ?thesis by simp
  qed
qed

lemma double_near:
  "0 \<le> x \<Longrightarrow> \<bar>double x - x\<bar> \<le> x / 2 ^ 53 + pow2 (- 1075)"
  using double_error [of x] by simp

lemma pow2_tiny: "pow2 (- 1075) \<le> 1 / 2 ^ 100"
proof -
  have "pow2 (- 1075) \<le> pow2 (- 100)" by (rule pow2_mono) simp
  then show ?thesis by (simp add: pow2_def)
qed

lemma rate_chain:
  fixes r0 m c :: rat
  assumes r0: "0 \<le> r0" "r0 \<le> 100" and m: "0 \<le> m" and c: "0 \<le> c" "c \<le> 100"
  shows "\<bar>double (of_int (js_round (double (double (double (double (r0 * m) + c) / (m + 1)) * 100))) / 100)
          - (r0 * m + c) / (m + 1)\<bar> \<le> 1 / 200 + 1 / 10 ^ 12"
proof -
  define eta where "eta = pow2 (- 1075)"
  have eta0: "0 < eta" by (simp add: eta_def pow2_pos)
  have eta1: "eta \<le> 1 / 2 ^ 100" unfolding eta_def by (rule pow2_tiny)
  define X where "X = r0 * m"
  define N where "N = m + 1"
  define E where "E = (X + c) / N"
  define a where "a = double X"
  define b where "b = double (a + c)"
  define bn where "bn = b / N"
  define q where "q = double bn"
  define p where "p = double (q * 100)"
  define k where "k = js_round p"
  define r where "r = double (of_int k / 100)"
  have N1: "1 \<le> N" using m by (simp add: N_def)
  have X0: "0 \<le> X" using r0(1) m by (simp add: X_def)
  have "r0 * m \<le> 100 * m" using r0(2) m by (rule mult_right_mono)
  then have S: "X + c \<le> 100 * N" using c(2) by (simp add: X_def N_def)
  have E0: "0 \<le> E" using X0 c(1) N1 by (simp add: E_def)
  have E1: "E \<le> 100" using S N1 by (simp add: E_def pos_divide_le_eq)
  have a0: "0 \<le> a" unfolding a_def using X0 by (rule double_nonneg)
  have A: "\<bar>a - X\<bar> \<le> X / 2 ^ 53 + eta"
    unfolding a_def eta_def using X0 by (rule double_near)
  have ac: "0 \<le> a + c" using a0 c(1) by simp
  have b0: "0 \<le> b" unfolding b_def using ac by (rule double_nonneg)
  have B: "\<bar>b - (a + c)\<bar> \<le> (a + c) / 2 ^ 53 + eta"
    unfolding b_def eta_def using ac by (rule double_near)
  have bS: "\<bar>b - (X + c)\<bar> \<le> 3 * (X + c) / 2 ^ 53 + 3 * eta"
    using A B X0 c(1) eta0 unfolding abs_le_iff by (simp add: field_simps)
  have "\<bar>bn - E\<bar> = \<bar>b - (X + c)\<bar> / N"
    using N1 by (simp add: bn_def E_def diff_divide_distrib [symmetric])
  also have "\<dots> \<le> (3 * (X + c) / 2 ^ 53 + 3 * eta) / N"
    using bS N1 by (intro divide_right_mono) simp_all
  also have "\<dots> = 3 * E / 2 ^ 53 + 3 * (eta / N)"
    by (simp add: E_def add_divide_distrib)
  finally have bnE1: "\<bar>bn - E\<bar> \<le> 3 * E / 2 ^ 53 + 3 * (eta / N)" .
  have "eta * 1 \<le> eta * N" using N1 eta0 by (intro mult_left_mono) simp_all
  then have "eta / N \<le> eta" using N1 by (simp add: pos_divide_le_eq mult.commute)
  then have "3 * E / 2 ^ 53 + 3 * (eta / N) \<le> 3 * E / 2 ^ 53 + 3 * eta" by simp
  with bnE1 have bnE: "\<bar>bn - E\<bar> \<le> 3 * E / 2 ^ 53 + 3 * eta" by (rule order_trans)
  have bn0: "0 \<le> bn" using b0 N1 by (simp add: bn_def)
  have q0: "0 \<le> q" unfolding q_def using bn0 by (rule double_nonneg)
  have Q: "\<bar>q - bn\<bar> \<le> bn / 2 ^ 53 + eta"
    unfolding q_def eta_def using bn0 by (rule double_near)
  have qE: "\<bar>q - E\<bar> \<le> 1 / 10 ^ 13"
    using Q bnE E0 E1 eta0 eta1 unfolding abs_le_iff by (simp add: field_simps)
  have q1: "0 \<le> q * 100" using q0 by simp
  have p0: "0 \<le> p" unfolding p_def using q1 by (rule double_nonneg)
  have P: "\<bar>p - q * 100\<bar> \<le> q * 100 / 2 ^ 53 + eta"
    unfolding p_def eta_def using q1 by (rule double_near)
  have K: "\<bar>of_int k - p\<bar> \<le> 1 / 2" unfolding k_def by (rule js_round_nearest)
  have k0: "0 \<le> k" unfolding k_def using p0 by (rule js_round_nonneg)
  then have k1: "(0::rat) \<le> of_int k / 100" by simp
  have R: "\<bar>r - of_int k / 100\<bar> \<le> of_int k / 100 / 2 ^ 53 + eta"
    unfolding r_def eta_def using k1 by (rule double_near)
  have "\<bar>r - E\<bar> \<le> 1 / 200 + 1 / 10 ^ 12"
    using R K P qE E0 E1 eta0 eta1 unfolding abs_le_iff by (simp add: field_simps)
  then show ?thesis
    by (simp only: r_def k_def p_def q_def bn_def b_def a_def E_def X_def N_def)
qed

lemma nine_1: "updateStats alice 1 False 0 = (alice\<lparr>tasksCompleted := 1, taskCompletionRate := 0, totalTimeSpent := 1, lastActive := 0\<rparr>)"
  by code_simp

lemma nine_2: "updateStats (alice\<lparr>tasksCompleted := 1, taskCompletionRate := 0, totalTimeSpent := 1, lastActive := 0\<rparr>) 1 False 0 = (alice\<lparr>tasksCompleted := 2, taskCompletionRate := 0, totalTimeSpent := 2, lastActive := 0\<rparr>)"
  by code_simp

lemma nine_3: "updateStats (alice\<lparr>tasksCompleted := 2, taskCompletionRate := 0, totalTimeSpent := 2, lastActive := 0\<rparr>) 1 True 0 = (alice\<lparr>tasksCompleted := 3, taskCompletionRate := double (3333 / 100), totalTimeSpent := 3, lastActive := 0\<rparr>)"
  by code_simp

lemma nine_4: "updateStats (alice\<lparr>tasksCompleted := 3, taskCompletionRate := double (3333 / 100), totalTimeSpent := 3, lastActive := 0\<rparr>) 1 False 0 = (alice\<lparr>tasksCompleted := 4, taskCompletionRate := 25, totalTimeSpent := 4, lastActive := 0\<rparr>)"
  by code_simp

lemma nine_5: "updateStats (alice\<lparr>tasksCompleted := 4, taskCompletionRate := 25, totalTimeSpent := 4, lastActive := 0\<rparr>) 1 True 0 = (alice\<lparr>tasksCompleted := 5, taskCompletionRate := 40, totalTimeSpent := 5, lastActive := 0\<rparr>)"
  by code_simp

lemma nine_6: "updateStats (alice\<lparr>tasksCompleted := 5, taskCompletionRate := 40, totalTimeSpent := 5, lastActive := 0\<rparr>) 1 False 0 = (alice\<lparr>tasksCompleted := 6, taskCompletionRate := double (3333 / 100), totalTimeSpent := 6, lastActive := 0\<rparr>)"
  by code_simp

lemma nine_7: "updateStats (alice\<lparr>tasksCompleted := 6, taskCompletionRate := double (3333 / 100), totalTimeSpent := 6, lastActive := 0\<rparr>) 1 True 0 = (alice\<lparr>tasksCompleted := 7, taskCompletionRate := double (4285 / 100), totalTimeSpent := 7, lastActive := 0\<rparr>)"
  by code_simp

lemma nine_8: "updateStats (alice\<lparr>tasksCompleted := 7, taskCompletionRate := double (4285 / 100), totalTimeSpent := 7, lastActive := 0\<rparr>) 1 True 0 = (alice\<lparr>tasksCompleted := 8, taskCompletionRate := double (4999 / 100), totalTimeSpent := 8, lastActive := 0\<rparr>)"
  by code_simp

lemma nine_9: "updateStats (alice\<lparr>tasksCompleted := 8, taskCompletionRate := double (4999 / 100), totalTimeSpent := 8, lastActive := 0\<rparr>) 1 True 0 = (alice\<lparr>tasksCompleted := 9, taskCompletionRate := double (5555 / 100), totalTimeSpent := 9, lastActive := 0\<rparr>)"
  by code_simp

lemma nineCompletions_eq: "nineCompletions = (alice\<lparr>tasksCompleted := 9, taskCompletionRate := double (5555 / 100), totalTimeSpent := 9, lastActive := 0\<rparr>)"
  by (simp only: nineCompletions_def foldl_Cons foldl_Nil nine_1 nine_2 nine_3 nine_4 nine_5 nine_6 nine_7 nine_8 nine_9)

lemma nine_10:
  "taskCompletionRate (updateStats (alice\<lparr>tasksCompleted := 9, taskCompletionRate := double (5555 / 100), totalTimeSpent := 9, lastActive := 0\<rparr>) 1 True 0) = 60"
  by code_simp

lemma nine_exact:
  "of_int (js_round ((double (5555 / 100) * 9 + 100) / 10 * 100)) / 100 = (5999 / 100 :: rat)"
  by code_simp

lemma thirteen_rate:
  "taskCompletionRate (updateStats thirteen 5 True 9) = double (3571 / 100)"
  by code_simp

lemma thirteen_exact:
  "of_int (js_round ((3077 / 100 * 13 + 100) / 14 * 100)) / 100 = (3572 / 100 :: rat)"
  by code_simp

lemma double_3571: "double (3571 / 100) \<noteq> 3572 / 100"
  by code_simp

text \<open>
  Claim C6 fails over exact numbers. After the nine completions of \<open>nineCompletions\<close>
  the stored rate is the double nearest to 55.55; a tenth completion, on time, yields
  60, where the formula of the claim on the stored rate, rounded to two decimals, gives
  59.99. With the stored rate nearest to 30.77 after 13 completions, a 14th on time
  yields the double nearest to 35.71, where the formula on the decimal 30.77 gives
  35.72.
\<close>

theorem updateStats_rate_differs_from_exact_rounding:
  "tasksCompleted nineCompletions = 9
   \<and> taskCompletionRate nineCompletions = double (5555 / 100)
   \<and> taskCompletionRate (updateStats nineCompletions 1 True 0) = 60
   \<and> of_int (js_round ((taskCompletionRate nineCompletions * 9 + 100) / 10 * 100)) / 100
       = (5999 / 100 :: rat)
   \<and> tasksCompleted thirteen = 13
   \<and> taskCompletionRate thirteen = double (3077 / 100)
   \<and> taskCompletionRate (updateStats thirteen 5 True 9) = double (3571 / 100)
   \<and> of_int (js_round ((3077 / 100 * 13 + 100) / 14 * 100)) / 100 = (3572 / 100 :: rat)
   \<and> double (3571 / 100) \<noteq> 3572 / 100"
proof -
  have a: "tasksCompleted nineCompletions = 9"
    and b: "taskCompletionRate nineCompletions = double (5555 / 100)"
    by (simp_all add: nineCompletions_eq)
  have c: "taskCompletionRate (updateStats nineCompletions 1 True 0) = 60"
    unfolding nineCompletions_eq by (rule nine_10)
  have d: "of_int (js_round ((taskCompletionRate nineCompletions * 9 + 100) / 10 * 100)) / 100
       = (5999 / 100 :: rat)"
    unfolding b by (rule nine_exact)
  have e: "tasksCompleted thirteen = 13" "taskCompletionRate thirteen = double (3077 / 100)"
    by (simp_all add: thirteen_def)
  from a b c d e thirteen_rate thirteen_exact double_3571 show ?thesis by blast
qed

text \<open>
  Claim C6 in double arithmetic. For a stored rate from 0 to 100, with the count and
  the minutes in the range where a double holds every integer, updateStats increments
  tasksCompleted to n, adds the duration to totalTimeSpent, and sets taskCompletionRate
  to the double nearest to a number of two decimals, at most 0.005 + 10^-12 away from
  (oldRate * (n - 1) + (100 or 0)) / n.
\<close>

theorem updateStats_running_average:
  assumes "0 \<le> taskCompletionRate u" and "taskCompletionRate u \<le> 100"
      and "tasksCompleted u < 2 ^ 53" and "\<bar>totalTimeSpent u\<bar> + \<bar>d\<bar> \<le> 2 ^ 53"
  shows "tasksCompleted (updateStats u d onTime now) = tasksCompleted u + 1
       \<and> totalTimeSpent (updateStats u d onTime now) = totalTimeSpent u + d
       \<and> (\<exists>k. taskCompletionRate (updateStats u d onTime now) = double (of_int k / 100))
       \<and> \<bar>taskCompletionRate (updateStats u d onTime now)
            - (taskCompletionRate u * of_nat (tasksCompleted u + 1 - 1)
                 + (if onTime then 100 else 0)) / of_nat (tasksCompleted u + 1)\<bar>
           \<le> 1 / 200 + 1 / 10 ^ 12"
proof -
  define c :: rat where "c = (if onTime then 100 else 0)"
  define m :: rat where "m = of_nat (tasksCompleted u)"
  have c: "0 \<le> c" "c \<le> 100" by (simp_all add: c_def)
  have m: "0 \<le> m" by (simp add: m_def)
  have r: "taskCompletionRate (updateStats u d onTime now) =
           double (of_int (js_round (double (double (double (double (taskCompletionRate u * m) + c) / (m + 1)) * 100))) / 100)"
    by (simp add: updateStats_def Let_def c_def m_def add.commute)
  have n: "(of_nat (tasksCompleted u + 1) :: rat) = m + 1" by (simp add: m_def)
  have n1: "(of_nat (tasksCompleted u + 1 - 1) :: rat) = m" by (simp add: m_def)
  have "\<bar>taskCompletionRate (updateStats u d onTime now)
            - (taskCompletionRate u * m + c) / (m + 1)\<bar> \<le> 1 / 200 + 1 / 10 ^ 12"
    unfolding r using assms(1,2) m c by (rule rate_chain)
  then have bound: "\<bar>taskCompletionRate (updateStats u d onTime now)
            - (taskCompletionRate u * of_nat (tasksCompleted u + 1 - 1)
                 + (if onTime then 100 else 0)) / of_nat (tasksCompleted u + 1)\<bar>
           \<le> 1 / 200 + 1 / 10 ^ 12"
    unfolding n n1 c_def .
  have k: "\<exists>k. taskCompletionRate (updateStats u d onTime now) = double (of_int k / 100)"
    using r by blast
  have t: "tasksCompleted (updateStats u d onTime now) = tasksCompleted u + 1"
    "totalTimeSpent (updateStats u d onTime now) = totalTimeSpent u + d"
    by (simp_all add: updateStats_def Let_def)
  from t k bound show ?thesis by blast
qed

text \<open>
  The theorem of claim C6 at a concrete state.
\<close>

theorem updateStats_running_average_witness:
  "0 \<le> taskCompletionRate thirteen \<and> taskCompletionRate thirteen \<le> 100
   \<and> tasksCompleted thirteen < 2 ^ 53 \<and> \<bar>totalTimeSpent thirteen\<bar> + \<bar>5\<bar> \<le> 2 ^ 53
   \<and> tasksCompleted (updateStats thirteen 5 True 9) = 14
   \<and> totalTimeSpent (updateStats thirteen 5 True 9) = 5
   \<and> \<bar>taskCompletionRate (updateStats thirteen 5 True 9) - (double (3077 / 100) * 13 + 100) / 14\<bar>
       \<le> 1 / 200 + 1 / 10 ^ 12"
proof -
  have h: "0 \<le> taskCompletionRate thirteen" "taskCompletionRate thirteen \<le> 100"
    by code_simp+
  have g: "tasksCompleted thirteen < 2 ^ 53" "\<bar>totalTimeSpent thirteen\<bar> + \<bar>5\<bar> \<le> 2 ^ 53"
    by (simp_all add: thirteen_def alice_def)
  from updateStats_running_average [OF h g, of True 9]
  have "tasksCompleted (updateStats thirteen 5 True 9) = 14
     \<and> totalTimeSpent (updateStats thirteen 5 True 9) = 5
     \<and> \<bar>taskCompletionRate (updateStats thirteen 5 True 9) - (double (3077 / 100) * 13 + 100) / 14\<bar>
         \<le> 1 / 200 + 1 / 10 ^ 12"
    by (simp add: thirteen_def alice_def)
  with h g show ?thesis by blast
qed

section \<open>Cache failures and leaderboards\<close>

text \<open>
  Claim C8. A cache failure does reach the caller: when the Redis SET is rejected,
  startTimer returns that error after the Timer has been saved, and when the DEL is
  rejected, completeTimer returns it after the Timer has been completed.
\<close>

theorem cache_failure_reaches_caller:
  "fst (startTimer setFails 1 7 0) = Inl RedisCommandFailed
   \<and> timers (snd (startTimer setFails 1 7 0)) = [timerA]
   \<and> fst (completeTimer delFails 7 [] tenMinutes) = Inl RedisCommandFailed
   \<and> map isCompleted (timers (snd (completeTimer delFails 7 [] tenMinutes))) = [True]"
  by (simp add: service_defs world_defs setFails_def delFails_def)

lemma aggregateTimers_total:
  "0 < limit \<Longrightarrow> \<exists>rows. aggregateTimers st timeFrame limit now = Inr rows"
  by (simp add: aggregateTimers_def Let_def)

lemma computeGlobalLeaderboard_total:
  "0 < limit \<Longrightarrow> \<exists>lb. computeGlobalLeaderboard st timeFrame limit now = Inr lb"
  using aggregateTimers_total [of limit st timeFrame now]
  by (auto simp: computeGlobalLeaderboard_def Let_def)

lemma global_hit:
  assumes "initialised (redis st)"
      and "redis_get (redis st) (GlobalLeaderboardKey (globalTimeFrame opts)) (getNow clk)
             = Inr (Some (LeaderboardVal cached))"
  shows "generateGlobalLeaderboard st opts clk = (Inr (take (globalLimit opts) cached), st)"
  using assms by (simp add: generateGlobalLeaderboard_def getRedisClient_def Let_def)

lemma global_miss:
  assumes "initialised (redis st)"
      and "\<forall>cached. redis_get (redis st) (GlobalLeaderboardKey (globalTimeFrame opts)) (getNow clk)
             \<noteq> Inr (Some (LeaderboardVal cached))"
      and "computeGlobalLeaderboard st (globalTimeFrame opts) (globalLimit opts) (windowNow clk) = Inr lb"
  shows "generateGlobalLeaderboard st opts clk =
           (Inr (take (globalLimit opts) lb),
            if setOk (redis st)
            then st\<lparr>redis := (redis st)\<lparr>entries := (entries (redis st))
                   (GlobalLeaderboardKey (globalTimeFrame opts) \<mapsto>
                      (LeaderboardVal lb, Some (setNow clk + 3600000)))\<rparr>\<rparr>
            else st)"
  using assms
  by (auto simp: generateGlobalLeaderboard_def getRedisClient_def redis_set_def Let_def
           split: sum.splits option.splits cache_val.splits)

lemma group_ignores_cache:
  "generateGroupLeaderboard (st\<lparr>redis := r\<rparr>) groupId opts now =
   generateGroupLeaderboard st groupId opts now"
  by (simp add: generateGroupLeaderboard_def groupTimers_def findGroup_def Let_def
           split: option.splits)

text \<open>
  Claim C9. With a connected client and a positive limit, generateGlobalLeaderboard
  computes a list; on a cache hit it returns the cached list truncated to the limit and
  leaves the state alone; otherwise it returns the computed list truncated to the limit,
  and stores the whole list under the key of the time frame with an expiry one hour
  after the write when the write succeeds, or leaves the state alone when the write
  fails. generateGroupLeaderboard does not depend on the cache.
\<close>

theorem global_leaderboard_cached_one_hour:
  assumes "initialised (redis st)" and "0 < globalLimit opts"
  shows "\<exists>lb. computeGlobalLeaderboard st (globalTimeFrame opts) (globalLimit opts) (windowNow clk) = Inr lb
     \<and> (\<forall>cached. redis_get (redis st) (GlobalLeaderboardKey (globalTimeFrame opts)) (getNow clk)
                     = Inr (Some (LeaderboardVal cached)) \<longrightarrow>
           generateGlobalLeaderboard st opts clk = (Inr (take (globalLimit opts) cached), st))
     \<and> ((\<forall>cached. redis_get (redis st) (GlobalLeaderboardKey (globalTimeFrame opts)) (getNow clk)
                     \<noteq> Inr (Some (LeaderboardVal cached))) \<longrightarrow>
           fst (generateGlobalLeaderboard st opts clk) = Inr (take (globalLimit opts) lb)
         \<and> (setOk (redis st) \<longrightarrow>
               snd (generateGlobalLeaderboard st opts clk) =
                 st\<lparr>redis := (redis st)\<lparr>entries := (entries (redis st))
                   (GlobalLeaderboardKey (globalTimeFrame opts) \<mapsto>
                      (LeaderboardVal lb, Some (setNow clk + 3600000)))\<rparr>\<rparr>
             \<and> (\<forall>later. redis_get (redis (snd (generateGlobalLeaderboard st opts clk)))
                            (GlobalLeaderboardKey (globalTimeFrame opts)) later =
                          (if getOk (redis st)
                           then Inr (if later < setNow clk + 3600000 then Some (LeaderboardVal lb) else None)
                           else Inl RedisCommandFailed)))
         \<and> (\<not> setOk (redis st) \<longrightarrow> snd (generateGlobalLeaderboard st opts clk) = st))
     \<and> (\<forall>r groupId gopts now. generateGroupLeaderboard (st\<lparr>redis := r\<rparr>) groupId gopts now =
                               generateGroupLeaderboard st groupId gopts now)"
proof -
  from computeGlobalLeaderboard_total [OF assms(2)]
  obtain lb where lb: "computeGlobalLeaderboard st (globalTimeFrame opts) (globalLimit opts) (windowNow clk) = Inr lb"
    by blast
  have hit: "\<forall>cached. redis_get (redis st) (GlobalLeaderboardKey (globalTimeFrame opts)) (getNow clk)
                     = Inr (Some (LeaderboardVal cached)) \<longrightarrow>
           generateGlobalLeaderboard st opts clk = (Inr (take (globalLimit opts) cached), st)"
    using global_hit [OF assms(1)] by blast
  have miss: "(\<forall>cached. redis_get (redis st) (GlobalLeaderboardKey (globalTimeFrame opts)) (getNow clk)
                     \<noteq> Inr (Some (LeaderboardVal cached))) \<longrightarrow>
           fst (generateGlobalLeaderboard st opts clk) = Inr (take (globalLimit opts) lb)
         \<and> (setOk (redis st) \<longrightarrow>
               snd (generateGlobalLeaderboard st opts clk) =
                 st\<lparr>redis := (redis st)\<lparr>entries := (entries (redis st))
                   (GlobalLeaderboardKey (globalTimeFrame opts) \<mapsto>
                      (LeaderboardVal lb, Some (setNow clk + 3600000)))\<rparr>\<rparr>
             \<and> (\<forall>later. redis_get (redis (snd (generateGlobalLeaderboard st opts clk)))
                            (GlobalLeaderboardKey (globalTimeFrame opts)) later =
                          (if getOk (redis st)
                           then Inr (if later < setNow clk + 3600000 then Some (LeaderboardVal lb) else None)
                           else Inl RedisCommandFailed)))
         \<and> (\<not> setOk (redis st) \<longrightarrow> snd (generateGlobalLeaderboard st opts clk) = st)"
  proof
    assume m: "\<forall>cached. redis_get (redis st) (GlobalLeaderboardKey (globalTimeFrame opts)) (getNow clk)
                     \<noteq> Inr (Some (LeaderboardVal cached))"
    note r = global_miss [OF assms(1) m lb]
    show "fst (generateGlobalLeaderboard st opts clk) = Inr (take (globalLimit opts) lb)
         \<and> (setOk (redis st) \<longrightarrow>
               snd (generateGlobalLeaderboard st opts clk) =
                 st\<lparr>redis := (redis st)\<lparr>entries := (entries (redis st))
                   (GlobalLeaderboardKey (globalTimeFrame opts) \<mapsto>
                      (LeaderboardVal lb, Some (setNow clk + 3600000)))\<rparr>\<rparr>
             \<and> (\<forall>later. redis_get (redis (snd (generateGlobalLeaderboard st opts clk)))
                            (GlobalLeaderboardKey (globalTimeFrame opts)) later =
                          (if getOk (redis st)
                           then Inr (if later < setNow clk + 3600000 then Some (LeaderboardVal lb) else None)
                           else Inl RedisCommandFailed)))
         \<and> (\<not> setOk (redis st) \<longrightarrow> snd (generateGlobalLeaderboard st opts clk) = st)"
      unfolding r by (simp add: redis_get_def)
  qed
  from lb hit miss group_ignores_cache show ?thesis by blast
qed

lemma userStats_None:
  "foldl addTimerStats m ts u = None \<longleftrightarrow> m u = None \<and> u \<notin> user ` set ts"
  by (induction ts arbitrary: m) (auto simp: addTimerStats_def Let_def)

lemma completionRateOf_zero [simp]: "completionRateOf zeroStats = 0"
  by (simp add: completionRateOf_def zeroStats_def)

lemma distinct_map_sort_key:
  "distinct (map f (sort_key k xs)) = distinct (map f xs)"
  by (simp add: distinct_map)

lemma group_leaderboard_members:
  assumes g: "findGroup st gid = Some g"
      and d: "distinct (map user_id (users st))"
      and r: "set (members g) \<union> set (leaders g) \<subseteq> user_id ` set (users st)"
  shows "\<exists>lb. generateGroupLeaderboard st gid gopts now = Inr lb
           \<and> lb_user ` set lb = set (members g) \<union> set (leaders g)
           \<and> distinct (map lb_user lb)
           \<and> (\<forall>e\<in>set lb. (\<forall>t\<in>set (groupTimers st gid g (groupTimeFrame gopts) now). user t \<noteq> lb_user e)
                 \<longrightarrow> lb_tasksCompleted e = 0 \<and> lb_totalTime e = 0 \<and> lb_completionRate e = 0)"
proof -
  define userStats where
    "userStats = foldl addTimerStats Map.empty (groupTimers st gid g (groupTimeFrame gopts) now)"
  define found where
    "found = filter (\<lambda>u. user_id u \<in> set (members g @ leaders g)) (users st)"
  define mk where "mk = (\<lambda>u.
      let s = (case userStats (user_id u) of None \<Rightarrow> zeroStats | Some s \<Rightarrow> s)
      in \<lparr>lb_user = user_id u, lb_name = fullName u,
          lb_tasksCompleted = s_tasksCompleted s, lb_totalTime = s_totalTime s,
          lb_completionRate = completionRateOf s,
          lb_isLeader = Some (user_id u \<in> set (leaders g))\<rparr>)"
  define lb where "lb = sort_key (\<lambda>e. - int (lb_tasksCompleted e)) (map mk found)"
  have res: "generateGroupLeaderboard st gid gopts now = Inr lb"
    using g by (simp add: generateGroupLeaderboard_def Let_def lb_def mk_def found_def userStats_def)
  have user_mk: "lb_user (mk u) = user_id u" for u by (simp add: mk_def Let_def)
  have ids: "map lb_user (map mk found) = map user_id found" by (simp add: user_mk)
  have "lb_user ` set lb = user_id ` set found"
    using ids unfolding lb_def by (simp add: image_image user_mk)
  also have "\<dots> = set (members g) \<union> set (leaders g)"
    using r by (auto simp: found_def)
  finally have users_eq: "lb_user ` set lb = set (members g) \<union> set (leaders g)" .
  have "distinct (map user_id found)"
    unfolding found_def using d by (rule distinct_map_filter)
  then have dist: "distinct (map lb_user lb)"
    unfolding lb_def by (simp only: distinct_map_sort_key ids)
  have zero: "\<forall>e\<in>set lb. (\<forall>t\<in>set (groupTimers st gid g (groupTimeFrame gopts) now). user t \<noteq> lb_user e)
                 \<longrightarrow> lb_tasksCompleted e = 0 \<and> lb_totalTime e = 0 \<and> lb_completionRate e = 0"
  proof (intro ballI impI)
    fix e
    assume e: "e \<in> set lb"
      and none: "\<forall>t\<in>set (groupTimers st gid g (groupTimeFrame gopts) now). user t \<noteq> lb_user e"
    from e obtain u where u: "e = mk u" unfolding lb_def by auto
    from none have "lb_user e \<notin> user ` set (groupTimers st gid g (groupTimeFrame gopts) now)"
      by auto
    then have "userStats (user_id u) = None"
      unfolding userStats_def u user_mk by (simp add: userStats_None)
    then show "lb_tasksCompleted e = 0 \<and> lb_totalTime e = 0 \<and> lb_completionRate e = 0"
      unfolding u by (simp add: mk_def zeroStats_def completionRateOf_def)
  qed
  from res users_eq dist zero show ?thesis by blast
qed

lemma userMap_key:
  "foldl (\<lambda>m u. m(user_id u \<mapsto> u)) m0 us k = Some u \<Longrightarrow>
   (\<forall>k u. m0 k = Some u \<longrightarrow> user_id u = k) \<Longrightarrow> user_id u = k"
proof (induction us arbitrary: m0)
  case Nil
  then show ?case by simp
next
  case (Cons x xs)
  have inv: "\<forall>k u. (m0(user_id x \<mapsto> x)) k = Some u \<longrightarrow> user_id u = k"
  proof (intro allI impI)
    fix k' u'
    assume "(m0(user_id x \<mapsto> x)) k' = Some u'"
    then show "user_id u' = k'"
      using Cons.prems(2) by (cases "k' = user_id x") simp_all
  qed
  from Cons.prems(1)
  have "foldl (\<lambda>m u. m(user_id u \<mapsto> u)) (m0(user_id x \<mapsto> x)) xs k = Some u"
    by (simp only: foldl_Cons)
  then show ?case using inv by (rule Cons.IH)
qed

lemma globalTimers_mem:
  "t \<in> set (globalTimers st timeFrame now) \<Longrightarrow>
   t \<in> set (timers st) \<and> isCompleted t \<and> matchesTime (globalTimeFilter timeFrame now) t
   \<and> (\<exists>gr\<in>set (groups st). isPublic gr \<and> timer_group t = Some (group_id gr))"
  by (auto simp: globalTimers_def Let_def split: option.splits)

lemma aggregateTimers_rows:
  assumes "aggregateTimers st timeFrame limit now = Inr rows" and "(uid, s) \<in> set rows"
  shows "1 \<le> s_tasksCompleted s \<and> (\<exists>t\<in>set (globalTimers st timeFrame now). user t = uid)"
proof -
  let ?matched = "globalTimers st timeFrame now"
  let ?grouped = "map (\<lambda>u. (u, statsOf u ?matched)) (remdups (map user ?matched))"
  from assms(1) have "rows = take (limit * 2) (sort_key (\<lambda>(u, s). - int (s_tasksCompleted s)) ?grouped)"
    by (simp add: aggregateTimers_def Let_def split: if_splits)
  with assms(2) have "(uid, s) \<in> set (sort_key (\<lambda>(u, s). - int (s_tasksCompleted s)) ?grouped)"
    by (simp only: in_set_takeD)
  then have "(uid, s) \<in> set ?grouped" by (simp only: set_sort)
  then have uid: "uid \<in> user ` set ?matched" and s: "s = statsOf uid ?matched" by auto
  from uid obtain t where t: "t \<in> set ?matched" "user t = uid" by auto
  then have "filter (\<lambda>t. user t = uid) ?matched \<noteq> []"
    by (auto simp: filter_empty_conv)
  then have "1 \<le> length (filter (\<lambda>t. user t = uid) ?matched)"
    by (cases "filter (\<lambda>t. user t = uid) ?matched") simp_all
  with s t show ?thesis by (auto simp: statsOf_def Let_def)
qed

lemma computeGlobalLeaderboard_entries:
  assumes "computeGlobalLeaderboard st timeFrame limit now = Inr lb" and "e \<in> set lb"
  shows "1 \<le> lb_tasksCompleted e \<and> (\<exists>t\<in>set (globalTimers st timeFrame now). user t = lb_user e)"
proof -
  from assms(1) obtain rows where rows: "aggregateTimers st timeFrame limit now = Inr rows"
    by (auto simp: computeGlobalLeaderboard_def split: sum.splits)
  define userMap where "userMap = foldl (\<lambda>m u. m(user_id u \<mapsto> u)) Map.empty
      (filter (\<lambda>u. user_id u \<in> set (map fst rows)) (users st))"
  define F where "F = (\<lambda>(uid, s).
     case userMap uid of
       None \<Rightarrow> None
     | Some u \<Rightarrow> Some \<lparr>lb_user = user_id u, lb_name = fullName u,
                       lb_tasksCompleted = s_tasksCompleted s, lb_totalTime = s_totalTime s,
                       lb_completionRate = completionRateOf s, lb_isLeader = None\<rparr>)"
  from assms(1) rows have "lb = List.map_filter F rows"
    by (simp add: computeGlobalLeaderboard_def Let_def F_def userMap_def)
  with assms(2) obtain row where row: "row \<in> set rows" "F row = Some e"
    by (auto simp: map_filter_def)
  obtain uid s where us: "row = (uid, s)" by (cases row)
  from row(2) obtain u where u: "userMap uid = Some u"
    and e: "lb_user e = user_id u" "lb_tasksCompleted e = s_tasksCompleted s"
    unfolding us F_def by (auto split: option.splits)
  from u have "user_id u = uid" unfolding userMap_def by (rule userMap_key) simp
  with aggregateTimers_rows [OF rows row(1) [unfolded us]] e show ?thesis by simp
qed

lemma global_miss_result:
  assumes "\<forall>cached. redis_get (redis st) (GlobalLeaderboardKey (globalTimeFrame opts)) (getNow clk)
             \<noteq> Inr (Some (LeaderboardVal cached))"
      and "fst (generateGlobalLeaderboard st opts clk) = Inr out"
  shows "\<exists>lb. computeGlobalLeaderboard st (globalTimeFrame opts) (globalLimit opts) (windowNow clk) = Inr lb
           \<and> out = take (globalLimit opts) lb"
  using assms
  by (auto simp: generateGlobalLeaderboard_def getRedisClient_def Let_def
           split: sum.splits option.splits cache_val.splits if_splits)

text \<open>
  Claim C10. When every member and leader of the group has a User document, the group
  leaderboard has exactly one entry for each of them, and a user without a matching
  completed timer has tasksCompleted, totalTime and completionRate 0. Every entry of a
  freshly computed global leaderboard belongs to a user with at least one matching
  completed Timer of a public group.
\<close>

theorem leaderboard_membership:
  "(findGroup st gid = Some g \<and> distinct (map user_id (users st))
      \<and> set (members g) \<union> set (leaders g) \<subseteq> user_id ` set (users st) \<longrightarrow>
     (\<exists>lb. generateGroupLeaderboard st gid gopts now = Inr lb
        \<and> lb_user ` set lb = set (members g) \<union> set (leaders g)
        \<and> distinct (map lb_user lb)
        \<and> (\<forall>e\<in>set lb. (\<forall>t\<in>set (groupTimers st gid g (groupTimeFrame gopts) now). user t \<noteq> lb_user e)
              \<longrightarrow> lb_tasksCompleted e = 0 \<and> lb_totalTime e = 0 \<and> lb_completionRate e = 0)))
   \<and> ((\<forall>cached. redis_get (redis st) (GlobalLeaderboardKey (globalTimeFrame opts)) (getNow clk)
                    \<noteq> Inr (Some (LeaderboardVal cached)))
        \<and> fst (generateGlobalLeaderboard st opts clk) = Inr out \<longrightarrow>
       (\<forall>e\<in>set out. 1 \<le> lb_tasksCompleted e
          \<and> (\<exists>t\<in>set (timers st). user t = lb_user e \<and> isCompleted t
                \<and> matchesTime (globalTimeFilter (globalTimeFrame opts) (windowNow clk)) t
                \<and> (\<exists>gr\<in>set (groups st). isPublic gr \<and> timer_group t = Some (group_id gr)))))"
proof (intro conjI impI)
  assume "findGroup st gid = Some g \<and> distinct (map user_id (users st))
      \<and> set (members g) \<union> set (leaders g) \<subseteq> user_id ` set (users st)"
  then show "\<exists>lb. generateGroupLeaderboard st gid gopts now = Inr lb
        \<and> lb_user ` set lb = set (members g) \<union> set (leaders g)
        \<and> distinct (map lb_user lb)
        \<and> (\<forall>e\<in>set lb. (\<forall>t\<in>set (groupTimers st gid g (groupTimeFrame gopts) now). user t \<noteq> lb_user e)
              \<longrightarrow> lb_tasksCompleted e = 0 \<and> lb_totalTime e = 0 \<and> lb_completionRate e = 0)"
    using group_leaderboard_members [of st gid g gopts now] by blast
next
  assume a: "(\<forall>cached. redis_get (redis st) (GlobalLeaderboardKey (globalTimeFrame opts)) (getNow clk)
                    \<noteq> Inr (Some (LeaderboardVal cached)))
        \<and> fst (generateGlobalLeaderboard st opts clk) = Inr out"
  then obtain lb where lb: "computeGlobalLeaderboard st (globalTimeFrame opts) (globalLimit opts) (windowNow clk) = Inr lb"
    and out: "out = take (globalLimit opts) lb"
    using global_miss_result [of st opts clk out] by blast
  show "\<forall>e\<in>set out. 1 \<le> lb_tasksCompleted e
          \<and> (\<exists>t\<in>set (timers st). user t = lb_user e \<and> isCompleted t
                \<and> matchesTime (globalTimeFilter (globalTimeFrame opts) (windowNow clk)) t
                \<and> (\<exists>gr\<in>set (groups st). isPublic gr \<and> timer_group t = Some (group_id gr)))"
  proof
    fix e assume "e \<in> set out"
    then have "e \<in> set lb" unfolding out by (rule in_set_takeD)
    from computeGlobalLeaderboard_entries [OF lb this]
    obtain t where c: "1 \<le> lb_tasksCompleted e" and t: "t \<in> set (globalTimers st (globalTimeFrame opts) (windowNow clk))"
      "user t = lb_user e" by blast
    from globalTimers_mem [OF t(1)] c t(2)
    show "1 \<le> lb_tasksCompleted e
          \<and> (\<exists>t\<in>set (timers st). user t = lb_user e \<and> isCompleted t
                \<and> matchesTime (globalTimeFilter (globalTimeFrame opts) (windowNow clk)) t
                \<and> (\<exists>gr\<in>set (groups st). isPublic gr \<and> timer_group t = Some (group_id gr)))"
      by blast
  qed
qed

lemmas lb_defs = generateGlobalLeaderboard_def computeGlobalLeaderboard_def aggregateTimers_def
  globalTimers_def statsOf_def globalTimeFilter_def globalTimeFrame_def globalLimit_def
  matchesTime_def daysAgo_def dayMs_def completionRateOf_def fullName_def
  generateGroupLeaderboard_def groupTimers_def groupTimeFilter_def groupTimeFrame_def
  addTimerStats_def zeroStats_def redis_get_def List.map_filter_def

lemmas world2_defs = world2_def timerA_done_def taskX_done_def noOptions_def lbNow_def
  aliceRow_def cachedWorld_def

lemma completeTimer_world1: "snd (completeTimer world1 7 [] tenMinutes) = world2"
  by (simp add: service_defs world_defs world2_defs)

lemma compute_world2: "computeGlobalLeaderboard world2 ''month'' 10 700000 = Inr [aliceRow]"
  by (simp add: lb_defs service_defs world_defs world2_defs)

lemma compute_writeFails: "computeGlobalLeaderboard writeFails ''month'' 10 700000 = Inr [aliceRow]"
  by (simp add: lb_defs service_defs world_defs world2_defs writeFails_def)

lemma options_noOptions: "globalTimeFrame noOptions = ''month''" "globalLimit noOptions = 10"
  "groupTimeFrame noOptions = ''all''"
  by (simp_all add: globalTimeFrame_def globalLimit_def groupTimeFrame_def noOptions_def)

text \<open>
  The theorem of claim C9 at concrete states.
\<close>

theorem global_leaderboard_cached_one_hour_witness:
  "initialised (redis world2) \<and> 0 < globalLimit noOptions
   \<and> fst (generateGlobalLeaderboard world2 noOptions lbNow) = Inr [aliceRow]
   \<and> entries (redis (snd (generateGlobalLeaderboard world2 noOptions lbNow)))
         (GlobalLeaderboardKey ''month'') = Some (LeaderboardVal [aliceRow], Some 4300002)
   \<and> generateGlobalLeaderboard writeFails noOptions lbNow = (Inr [aliceRow], writeFails)
   \<and> timers cachedWorld = []
   \<and> generateGlobalLeaderboard cachedWorld noOptions lbNow = (Inr [aliceRow], cachedWorld)"
proof -
  have i: "initialised (redis world2)" "initialised (redis writeFails)"
    "initialised (redis cachedWorld)"
    by (simp_all add: world2_def writeFails_def cachedWorld_def redisUp_def)
  have l: "0 < globalLimit noOptions" by (simp add: options_noOptions)
  have miss2: "\<forall>cached. redis_get (redis world2) (GlobalLeaderboardKey (globalTimeFrame noOptions))
                 (getNow lbNow) \<noteq> Inr (Some (LeaderboardVal cached))"
    by (simp add: redis_get_def world2_def redisUp_def)
  have missF: "\<forall>cached. redis_get (redis writeFails) (GlobalLeaderboardKey (globalTimeFrame noOptions))
                 (getNow lbNow) \<noteq> Inr (Some (LeaderboardVal cached))"
    by (simp add: redis_get_def writeFails_def redisUp_def)
  have hitC: "redis_get (redis cachedWorld) (GlobalLeaderboardKey (globalTimeFrame noOptions))
                 (getNow lbNow) = Inr (Some (LeaderboardVal [aliceRow]))"
    by (simp add: redis_get_def cachedWorld_def redisUp_def options_noOptions lbNow_def)
  have ok: "setOk (redis world2)" "\<not> setOk (redis writeFails)"
    by (simp_all add: world2_def writeFails_def redisUp_def)
  from global_leaderboard_cached_one_hour [OF i(1) l, of lbNow] miss2 ok(1)
  obtain lb where lb: "computeGlobalLeaderboard world2 (globalTimeFrame noOptions)
                         (globalLimit noOptions) (windowNow lbNow) = Inr lb"
    and f2: "fst (generateGlobalLeaderboard world2 noOptions lbNow) = Inr (take (globalLimit noOptions) lb)"
    and s2: "snd (generateGlobalLeaderboard world2 noOptions lbNow) =
               world2\<lparr>redis := (redis world2)\<lparr>entries := (entries (redis world2))
                 (GlobalLeaderboardKey (globalTimeFrame noOptions) \<mapsto>
                    (LeaderboardVal lb, Some (setNow lbNow + 3600000)))\<rparr>\<rparr>"
    by blast
  from lb have lb2: "lb = [aliceRow]"
    by (simp add: options_noOptions lbNow_def compute_world2)
  from f2 have a: "fst (generateGlobalLeaderboard world2 noOptions lbNow) = Inr [aliceRow]"
    by (simp add: lb2 options_noOptions)
  have b: "entries (redis (snd (generateGlobalLeaderboard world2 noOptions lbNow)))
         (GlobalLeaderboardKey ''month'') = Some (LeaderboardVal [aliceRow], Some 4300002)"
    unfolding s2 by (simp add: lb2 options_noOptions lbNow_def)
  from global_leaderboard_cached_one_hour [OF i(2) l, of lbNow] missF ok(2)
  obtain lb' where lb': "computeGlobalLeaderboard writeFails (globalTimeFrame noOptions)
                         (globalLimit noOptions) (windowNow lbNow) = Inr lb'"
    and fF: "fst (generateGlobalLeaderboard writeFails noOptions lbNow) = Inr (take (globalLimit noOptions) lb')"
    and sF: "snd (generateGlobalLeaderboard writeFails noOptions lbNow) = writeFails"
    by blast
  from lb' have "lb' = [aliceRow]"
    by (simp add: options_noOptions lbNow_def compute_writeFails)
  with fF sF have c: "generateGlobalLeaderboard writeFails noOptions lbNow = (Inr [aliceRow], writeFails)"
    by (simp add: options_noOptions prod_eq_iff)
  from global_leaderboard_cached_one_hour [OF i(3) l, of lbNow] hitC
  have "generateGlobalLeaderboard cachedWorld noOptions lbNow =
          (Inr (take (globalLimit noOptions) [aliceRow]), cachedWorld)"
    by blast
  then have d: "generateGlobalLeaderboard cachedWorld noOptions lbNow = (Inr [aliceRow], cachedWorld)"
    by (simp add: options_noOptions)
  have e: "timers cachedWorld = []" by (simp add: cachedWorld_def world0_def)
  from i(1) l a b c d e show ?thesis by blast
qed

lemma generate_world2: "fst (generateGlobalLeaderboard world2 noOptions lbNow) = Inr [aliceRow]"
proof -
  have i: "initialised (redis world2)" by (simp add: world2_def redisUp_def)
  have m: "\<forall>cached. redis_get (redis world2) (GlobalLeaderboardKey (globalTimeFrame noOptions))
                 (getNow lbNow) \<noteq> Inr (Some (LeaderboardVal cached))"
    by (simp add: redis_get_def world2_def redisUp_def)
  have c: "computeGlobalLeaderboard world2 (globalTimeFrame noOptions) (globalLimit noOptions)
             (windowNow lbNow) = Inr [aliceRow]"
    by (simp add: options_noOptions lbNow_def compute_world2)
  show ?thesis unfolding global_miss [OF i m c] by (simp add: options_noOptions)
qed

lemma groupTimers_world2:
  "groupTimers world2 100 (team\<lparr>completedTasks := 1, group_totalTimeSpent := 10,
       group_lastActive := 600003\<rparr>) ''all'' 700000 = [timerA_done]"
  by (simp add: groupTimers_def groupTimeFilter_def matchesTime_def world2_def timerA_done_def
        timerA_def taskX_done_def taskX_def team_def)

text \<open>
  The theorem of claim C10 at concrete states.
\<close>

theorem leaderboard_membership_witness:
  "distinct (map user_id (users world2))
   \<and> (\<exists>lb. generateGroupLeaderboard world2 100 noOptions 700000 = Inr lb
         \<and> lb_user ` set lb = {7, 8, 9} \<and> distinct (map lb_user lb)
         \<and> (\<forall>e\<in>set lb. lb_user e \<noteq> 7 \<longrightarrow>
               lb_tasksCompleted e = 0 \<and> lb_totalTime e = 0 \<and> lb_completionRate e = 0))
   \<and> fst (generateGlobalLeaderboard world2 noOptions lbNow) = Inr [aliceRow]
   \<and> 1 \<le> lb_tasksCompleted aliceRow
   \<and> (\<exists>t\<in>set (timers world2). user t = lb_user aliceRow \<and> isCompleted t)"
proof -
  let ?g = "team\<lparr>completedTasks := 1, group_totalTimeSpent := 10, group_lastActive := 600003\<rparr>"
  have g: "findGroup world2 100 = Some ?g" by (simp add: findGroup_def world2_def team_def)
  have d: "distinct (map user_id (users world2))"
    by (simp add: world2_def alice_def bob_def carol_def)
  have r: "set (members ?g) \<union> set (leaders ?g) \<subseteq> user_id ` set (users world2)"
    by (simp add: world2_def alice_def bob_def carol_def team_def)
  have miss: "\<forall>cached. redis_get (redis world2) (GlobalLeaderboardKey (globalTimeFrame noOptions))
                 (getNow lbNow) \<noteq> Inr (Some (LeaderboardVal cached))"
    by (simp add: redis_get_def world2_def redisUp_def)
  note inst = leaderboard_membership [of world2 100 ?g noOptions 700000 noOptions lbNow "[aliceRow]"]
  from inst g d r
  obtain lb where lb: "generateGroupLeaderboard world2 100 noOptions 700000 = Inr lb"
    and u: "lb_user ` set lb = set (members ?g) \<union> set (leaders ?g)"
    and dl: "distinct (map lb_user lb)"
    and z: "\<forall>e\<in>set lb. (\<forall>t\<in>set (groupTimers world2 100 ?g (groupTimeFrame noOptions) 700000).
                user t \<noteq> lb_user e)
              \<longrightarrow> lb_tasksCompleted e = 0 \<and> lb_totalTime e = 0 \<and> lb_completionRate e = 0"
    by blast
  from u have u': "lb_user ` set lb = {7, 8, 9}" by (auto simp: team_def)
  from z have z': "\<forall>e\<in>set lb. lb_user e \<noteq> 7 \<longrightarrow>
               lb_tasksCompleted e = 0 \<and> lb_totalTime e = 0 \<and> lb_completionRate e = 0"
    by (simp add: options_noOptions groupTimers_world2 timerA_done_def timerA_def)
  from inst miss generate_world2
  have "\<forall>e\<in>set [aliceRow]. 1 \<le> lb_tasksCompleted e
          \<and> (\<exists>t\<in>set (timers world2). user t = lb_user e \<and> isCompleted t
                \<and> matchesTime (globalTimeFilter (globalTimeFrame noOptions) (windowNow lbNow)) t
                \<and> (\<exists>gr\<in>set (groups world2). isPublic gr \<and> timer_group t = Some (group_id gr)))"
    by blast
  then have gl: "1 \<le> lb_tasksCompleted aliceRow
      \<and> (\<exists>t\<in>set (timers world2). user t = lb_user aliceRow \<and> isCompleted t)"
    by auto
  from d lb u' dl z' generate_world2 gl show ?thesis by blast
qed

lemma compute_world2_week:
  "computeGlobalLeaderboard world2 ''week'' 10 604800000 = Inr [aliceRow]"
  by (simp add: lb_defs service_defs world_defs world2_defs)

lemma options_weekOptions: "globalTimeFrame weekOptions = ''week''" "globalLimit weekOptions = 10"
  by (simp_all add: globalTimeFrame_def globalLimit_def weekOptions_def)

text \<open>
  Claim C10 fails for a global leaderboard served from the cache. The list computed at
  \<open>weekFirst\<close> is cached for an hour (state \<open>staleWeek\<close>); twenty minutes later the row
  of user 7 is still returned although no Timer matches the window any more. In
  \<open>cachedWorld\<close> the cached row is returned although there is no Timer at all.
\<close>

theorem global_leaderboard_serves_cached_rows:
  "snd (generateGlobalLeaderboard world2 weekOptions weekFirst) = staleWeek
   \<and> fst (generateGlobalLeaderboard staleWeek weekOptions weekLater) = Inr [aliceRow]
   \<and> globalTimers staleWeek ''week'' (windowNow weekLater) = []
   \<and> timers cachedWorld = []
   \<and> fst (generateGlobalLeaderboard cachedWorld noOptions lbNow) = Inr [aliceRow]"
proof -
  have i: "initialised (redis world2)" "initialised (redis staleWeek)"
    "initialised (redis cachedWorld)"
    by (simp_all add: world2_def staleWeek_def cachedWorld_def redisUp_def)
  have m: "\<forall>cached. redis_get (redis world2) (GlobalLeaderboardKey (globalTimeFrame weekOptions))
                 (getNow weekFirst) \<noteq> Inr (Some (LeaderboardVal cached))"
    by (simp add: redis_get_def world2_def redisUp_def)
  have c: "computeGlobalLeaderboard world2 (globalTimeFrame weekOptions) (globalLimit weekOptions)
             (windowNow weekFirst) = Inr [aliceRow]"
    by (simp add: options_weekOptions weekFirst_def compute_world2_week)
  have a: "snd (generateGlobalLeaderboard world2 weekOptions weekFirst) = staleWeek"
    unfolding global_miss [OF i(1) m c]
    by (simp add: options_weekOptions weekFirst_def staleWeek_def world2_def redisUp_def)
  have h: "redis_get (redis staleWeek) (GlobalLeaderboardKey (globalTimeFrame weekOptions))
             (getNow weekLater) = Inr (Some (LeaderboardVal [aliceRow]))"
    by (simp add: redis_get_def staleWeek_def redisUp_def options_weekOptions weekLater_def)
  have b: "fst (generateGlobalLeaderboard staleWeek weekOptions weekLater) = Inr [aliceRow]"
    unfolding global_hit [OF i(2) h] by (simp add: options_weekOptions)
  have g: "globalTimers staleWeek ''week'' (windowNow weekLater) = []"
    by (simp add: globalTimers_def globalTimeFilter_def matchesTime_def daysAgo_def dayMs_def
          staleWeek_def world2_def timerA_done_def timerA_def weekLater_def Let_def)
  have e: "timers cachedWorld = []" by (simp add: cachedWorld_def world0_def)
  have hc: "redis_get (redis cachedWorld) (GlobalLeaderboardKey (globalTimeFrame noOptions))
                 (getNow lbNow) = Inr (Some (LeaderboardVal [aliceRow]))"
    by (simp add: redis_get_def cachedWorld_def redisUp_def options_noOptions lbNow_def)
  have d: "fst (generateGlobalLeaderboard cachedWorld noOptions lbNow) = Inr [aliceRow]"
    unfolding global_hit [OF i(3) hc] by (simp add: options_noOptions)
  from a b g e d show ?thesis by blast
qed

end
